theory Spec2Isabelle
  imports Main
begin

section \<open>JavaScript strings and the regular expressions used by the two modules\<close>

text \<open>
  A string is the list of its code units, each below 256 here. The regular expressions of
  \<^verbatim>\<open>open.p.js\<close> and \<^verbatim>\<open>dynamic-button.js\<close> only mention ASCII characters, and JavaScript's
  \<^verbatim>\<open>/i\<close> flag never lets a character outside ASCII match an ASCII one, so the case
  folding of the expressions is the table A-Z to a-z.
\<close>

definition lower_char :: "char \<Rightarrow> char" where
  "lower_char c =
     (case map_of (zip ''ABCDEFGHIJKLMNOPQRSTUVWXYZ'' ''abcdefghijklmnopqrstuvwxyz'') c of
        None \<Rightarrow> c
      | Some d \<Rightarrow> d)"

text \<open>
  \<^verbatim>\<open>s.toLowerCase()\<close>: among the code units below 256 it changes the letters A-Z and the
  letters U+00C0 to U+00DE (but not the sign U+00D7), each to the unit 32 above.
\<close>

definition lower_unit :: "char \<Rightarrow> char" where
  "lower_unit c =
     (if (65 \<le> (of_char c :: nat) \<and> (of_char c :: nat) \<le> 90) \<or>
         (192 \<le> (of_char c :: nat) \<and> (of_char c :: nat) \<le> 222 \<and> (of_char c :: nat) \<noteq> 215)
      then char_of ((of_char c :: nat) + 32) else c)"

definition toLowerCase :: "string \<Rightarrow> string" where
  "toLowerCase s = map lower_unit s"

text \<open>\<^verbatim>\<open>\d\<close> and \<^verbatim>\<open>\w\<close> of a JavaScript regular expression.\<close>

definition is_digit :: "char \<Rightarrow> bool" where
  "is_digit c = (c \<in> set ''0123456789'')"

definition is_word_char :: "char \<Rightarrow> bool" where
  "is_word_char c =
     (c \<in> set ''abcdefghijklmnopqrstuvwxyzABCDEFGHIJKLMNOPQRSTUVWXYZ0123456789_'')"

text \<open>
  The characters that \<^verbatim>\<open>.\<close> does not match: line feed and carriage return (the other two
  line terminators of JavaScript, U+2028 and U+2029, are not code units below 256).
\<close>

definition is_line_terminator :: "char \<Rightarrow> bool" where
  "is_line_terminator c = (c = CHR 0x0A \<or> c = CHR 0x0D)"

text \<open>
  Modelled from the spec: the strings it calls URIs, as \<^verbatim>\<open>ko.uriparse.pathToURI\<close> (which
  is not among these sources) returns them. A URI is written in percent-encoded form
  (\<^verbatim>\<open>fileLineNoRE\<close> itself expects \<^verbatim>\<open>%23\<close> and \<^verbatim>\<open>%3A\<close>), so a line terminator never stands
  in it as such.
\<close>

definition uri_string :: "string \<Rightarrow> bool" where
  "uri_string u = (\<not> list_ex is_line_terminator u)"

text \<open>
  \<^verbatim>\<open>uri.match(/SUF$/i)\<close> for a literal suffix \<^verbatim>\<open>SUF\<close> (written in lower case), and
  \<^verbatim>\<open>/.*SUF$/i.test(uri)\<close>: the search may start anywhere, so both hold exactly when the
  string ends in the suffix, letters compared without case.
\<close>

definition ends_with_ci :: "string \<Rightarrow> string \<Rightarrow> bool" where
  "ends_with_ci suf s =
     (length suf \<le> length s \<and> map lower_char (drop (length s - length suf) s) = suf)"

text \<open>\<^verbatim>\<open>(\d+)$\<close>: one digit or more, up to the end of the input.\<close>

definition all_digits :: "string \<Rightarrow> bool" where
  "all_digits t = (t \<noteq> [] \<and> list_all is_digit t)"

text \<open>
  The tail \<^verbatim>\<open>(?:[#:]|%23|%3A)(\d+)$\<close> of \<^verbatim>\<open>fileLineNoRE\<close> matched at the start of \<open>r\<close>: the
  alternatives are tried in the order written, and the result is the second group.
\<close>

definition match_sep_digits :: "string \<Rightarrow> string option" where
  "match_sep_digits r =
     (if (take 1 r = ''#'' \<or> take 1 r = '':'') \<and> all_digits (drop 1 r) then Some (drop 1 r)
      else if take 3 r = ''%23'' \<and> all_digits (drop 3 r) then Some (drop 3 r)
      else if take 3 r = ''%3A'' \<and> all_digits (drop 3 r) then Some (drop 3 r)
      else None)"

primrec first_some :: "('a \<Rightarrow> 'b option) \<Rightarrow> 'a list \<Rightarrow> 'b option" where
  "first_some f [] = None"
| "first_some f (x # xs) = (case f x of None \<Rightarrow> first_some f xs | Some y \<Rightarrow> Some y)"

text \<open>
  \<^verbatim>\<open>fileLineNoRE.exec(uri)\<close> for \<^verbatim>\<open>/^(.*)(?:[#:]|%23|%3A)(\d+)$/\<close>. The greedy first group
  takes the longest prefix free of line terminators and gives characters back one at a
  time until the tail matches; \<open>n\<close> is the length of the first group, tried from the
  longest down. The result is the pair of groups.
\<close>

definition fileLineNoRE_at :: "string \<Rightarrow> nat \<Rightarrow> (string \<times> string) option" where
  "fileLineNoRE_at s n =
     (if list_ex is_line_terminator (take n s) then None
      else (case match_sep_digits (drop n s) of
              None \<Rightarrow> None
            | Some d \<Rightarrow> Some (take n s, d)))"

definition fileLineNoRE_exec :: "string \<Rightarrow> (string \<times> string) option" where
  "fileLineNoRE_exec s = first_some (fileLineNoRE_at s) (rev [0..<Suc (length s)])"

text \<open>\<^verbatim>\<open>s.replace(/\W+/g, "")\<close> and \<^verbatim>\<open>removeAmpersands\<close>.\<close>

definition strip_nonword :: "string \<Rightarrow> string" where
  "strip_nonword s = filter is_word_char s"

definition removeAmpersands :: "string list \<Rightarrow> string list" where
  "removeAmpersands labels = map (filter (\<lambda>c. c \<noteq> CHR ''&'')) labels"

text \<open>\<^verbatim>\<open>s.lastIndexOf(c)\<close> for a character, \<open>None\<close> for JavaScript's -1.\<close>

definition lastIndexOf :: "char \<Rightarrow> string \<Rightarrow> nat option" where
  "lastIndexOf c s = first_some (\<lambda>i. if s ! i = c then Some i else None) (rev [0..<length s])"

text \<open>\<^verbatim>\<open>s.lastIndexOf(t)\<close> for a string \<open>t\<close>.\<close>

definition lastIndexOf_str :: "string \<Rightarrow> string \<Rightarrow> nat option" where
  "lastIndexOf_str t s =
     first_some (\<lambda>i. if take (length t) (drop i s) = t then Some i else None)
       (rev [0..<Suc (length s)])"

text \<open>Truthiness of an optional string: \<^verbatim>\<open>undefined\<close>, \<^verbatim>\<open>null\<close> and \<^verbatim>\<open>""\<close> are falsy.\<close>

definition falsy :: "string option \<Rightarrow> bool" where
  "falsy v = (v = None \<or> v = Some [])"


section \<open>The URI open dispatcher (\<^verbatim>\<open>open.p.js\<close>)\<close>

subsection \<open>Values, collaborators and state\<close>

text \<open>
  An exception is identified by its message. A line number is a JavaScript number (the
  caller's argument) or a string (the second group of \<^verbatim>\<open>fileLineNoRE\<close>). A callback is a
  function of the caller, identified by a number, or the closure that \<^verbatim>\<open>recentURI\<close> builds
  around its \<^verbatim>\<open>uri\<close>. A view carries the display path of its document when it has one.
\<close>

type_synonym exn = string

datatype lineno = LNum int | LStr string

datatype callback = UserCallback nat | PruneFileMRU string

record view =
  view_id :: nat
  koDoc :: "string option"

datatype platform = Win | Darwin | Linux

text \<open>
  Every request to a collaborator that has an effect is recorded, in order, with its
  arguments. \<open>Enter_URIAtLine\<close> is not a request: it marks each entry into
  \<^verbatim>\<open>ko.open.URIAtLine\<close>, so that the number of single opens can be counted.
\<close>

datatype event =
    Enter_URIAtLine string "lineno option" "string option" bool "callback option"
  | Projects_open string bool
  | InstallPackageByUrl string
  | Dialogs_alert string
  | ImportPackage string
  | AddSqliteDatabaseFromURI string
  | CustomButtons string "string list" string
  | Dialogs_prompt string string string
  | LoadSchemeFromURI string string
  | ActivateScheme string
  | RemoveAllNotifications
  | AppendNotification string string
  | Window_alert exn
  | ImportSublimeSnippet string
  | ImportFilesFromFileSystem string
  | DoFileOpenAtLineAsync string lineno "string option" "callback option"
  | DoFileOpenAsync string "string option" "callback option"
  | Log_exception exn
  | MakeCurrent nat
  | Invoke_callback callback "nat option"
  | Mru_removeURL string string
  | RebuildView
  | YesNoCancel string
  | AddEventListener string

text \<open>
  The collaborators of the module, none of which is part of the repository: the view
  manager, the dialogs, the preference store, the string bundle, the scheme service, the
  importers. A call that may raise returns \<open>Inl\<close> the exception, or \<open>Some\<close> of it when it
  has no result; the calls the module makes outside any \<^verbatim>\<open>try\<close> block are taken to return.
  \<open>dbexplorer\<close> is \<open>None\<close> when \<^verbatim>\<open>ko.dbexplorer.viewManager\<close> is absent.
  \<open>viewStateMRU env url\<close> is \<open>None\<close> when the preference set has no entry for the url,
  \<open>Some None\<close> when the entry has no \<^verbatim>\<open>opened_files\<close>, and else the remembered files.
  \<open>object_proto_keys\<close> are the property names every plain object inherits.
\<close>

record collab =
  platform :: platform
  object_proto_keys :: "string list"
  pathToURI :: "string \<Rightarrow> exn + string"
  baseName :: "string \<Rightarrow> exn + string"
  uri_ext :: "string \<Rightarrow> exn + string"
  URIToPath :: "string \<Rightarrow> exn + string"
  projects_open :: "string \<Rightarrow> bool \<Rightarrow> exn option"
  installPackageByUrl :: "string \<Rightarrow> exn option"
  dialogs_alert :: "string \<Rightarrow> exn option"
  importPackage :: "string \<Rightarrow> exn option"
  dbexplorer :: "(string \<Rightarrow> exn + bool) option"
  GetStringFromName :: "string \<Rightarrow> string"
  formatStringFromName :: "string \<Rightarrow> string list \<Rightarrow> string"
  customButtons :: "string \<Rightarrow> string list \<Rightarrow> string \<Rightarrow> exn + string option"
  getSchemeNames :: "string list"
  schemeNameIsValid :: "string \<Rightarrow> bool"
  loadSchemeFromURI :: "string \<Rightarrow> string \<Rightarrow> exn + string"
  activateScheme :: "string \<Rightarrow> exn + string"
  removeAllNotifications :: "exn option"
  importSublimeSnippet_dragDrop :: "string \<Rightarrow> exn option"
  importFilesFromFileSystem_dragDrop :: "string \<Rightarrow> exn option"
  doFileOpenAtLineAsync :: "string \<Rightarrow> lineno \<Rightarrow> string option \<Rightarrow> exn option"
  doFileOpenAsync :: "string \<Rightarrow> string option \<Rightarrow> exn option"
  getViewsByType :: "string \<Rightarrow> view list"
  file_exists :: "string \<Rightarrow> bool"
  single_project_view :: bool
  viewStateMRU :: "string \<Rightarrow> string list option option"
  yesNoCancel :: "string \<Rightarrow> string"

text \<open>
  The state of \<^verbatim>\<open>ko.open\<close> and what the module changes around it: the one-shot flag, the
  scheme name remembered by \<^verbatim>\<open>_notifyHowtoRestoreOldScheme\<close> (\<open>None\<close> while the property
  is absent), whether the notification box shows the offer to restore a scheme, the
  answers the user will type into \<^verbatim>\<open>ko.dialogs.prompt\<close> (\<open>None\<close> for a cancelled prompt; a
  prompt past the end of the list is cancelled), the view manager's batch mode, and the
  requests made so far.
\<close>

record ostate =
  skipNextPrompt :: bool
  preNotificationSessionSchemeName :: "string option"
  notification_present :: bool
  prompt_answers :: "string option list"
  batchMode :: bool
  trace :: "event list"

subsection \<open>Control flow: exceptions and state\<close>

text \<open>
  A statement takes the state and gives a result, or the exception it raised, with the
  new state. \<open>try_catch\<close> is \<^verbatim>\<open>try { ... } catch (ex) { ... }\<close>.
\<close>

type_synonym 'a act = "ostate \<Rightarrow> (exn + 'a) \<times> ostate"

definition ret :: "'a \<Rightarrow> 'a act" where
  "ret x = (\<lambda>s. (Inr x, s))"

definition bnd :: "'a act \<Rightarrow> ('a \<Rightarrow> 'b act) \<Rightarrow> 'b act" where
  "bnd m f = (\<lambda>s. case m s of (r, s') \<Rightarrow> (case r of Inl e \<Rightarrow> (Inl e, s') | Inr x \<Rightarrow> f x s'))"

definition try_catch :: "'a act \<Rightarrow> (exn \<Rightarrow> 'a act) \<Rightarrow> 'a act" where
  "try_catch m h = (\<lambda>s. case m s of (r, s') \<Rightarrow> (case r of Inl e \<Rightarrow> h e s' | Inr x \<Rightarrow> (Inr x, s')))"

definition emit :: "event \<Rightarrow> unit act" where
  "emit ev = (\<lambda>s. (Inr (), s\<lparr>trace := trace s @ [ev]\<rparr>))"

text \<open>A pure query of a collaborator, and a request to one: recorded, then its outcome.\<close>

definition query :: "exn + 'a \<Rightarrow> 'a act" where
  "query r = (\<lambda>s. (r, s))"

definition request :: "event \<Rightarrow> exn + 'a \<Rightarrow> 'a act" where
  "request ev r = (\<lambda>s. (r, s\<lparr>trace := trace s @ [ev]\<rparr>))"

definition outcome :: "exn option \<Rightarrow> exn + unit" where
  "outcome r = (case r of None \<Rightarrow> Inr () | Some e \<Rightarrow> Inl e)"


subsection \<open>Classification by extension\<close>

text \<open>
  \<^verbatim>\<open>_imageUrlREs\<close> and \<^verbatim>\<open>_audioUrlREs\<close>: each entry \<open>suf\<close> stands for the expression
  \<^verbatim>\<open>/.*suf$/i\<close>. \<open>any_RE_test\<close> is the loop of \<^verbatim>\<open>isImageUrl\<close> and \<^verbatim>\<open>isAudioUrl\<close>.
\<close>

definition imageUrlREs :: "string list" where
  "imageUrlREs = [''.png'', ''.gif'', ''.jpg'', ''.jpeg'', ''.bmp'', ''.ico'']"

definition audioUrlREs :: "string list" where
  "audioUrlREs = [''.mp3'']"

primrec any_RE_test :: "string list \<Rightarrow> string \<Rightarrow> bool" where
  "any_RE_test [] url = False"
| "any_RE_test (re # res) url = (if ends_with_ci re url then True else any_RE_test res url)"

definition isImageUrl :: "string \<Rightarrow> bool" where
  "isImageUrl url = any_RE_test imageUrlREs url"

definition isAudioUrl :: "string \<Rightarrow> bool" where
  "isAudioUrl url = any_RE_test audioUrlREs url"

text \<open>
  Lines 151-157 of \<^verbatim>\<open>URIAtLine\<close>: when \<^verbatim>\<open>lineno == null\<close> and \<^verbatim>\<open>fileLineNoRE\<close> matches, the
  first group replaces the uri and the second becomes the line number.
\<close>

definition split_lineno :: "string \<Rightarrow> lineno option \<Rightarrow> string \<times> lineno option" where
  "split_lineno uri lineno =
     (if lineno = None
      then (case fileLineNoRE_exec uri of
              None \<Rightarrow> (uri, lineno)
            | Some m \<Rightarrow> (fst m, Some (LStr (snd m))))
      else (uri, lineno))"

text \<open>\<^verbatim>\<open>if (lineno)\<close>: a number other than 0, or a string that is not empty.\<close>

fun truthy_lineno :: "lineno \<Rightarrow> bool" where
  "truthy_lineno (LNum n) = (n \<noteq> 0)"
| "truthy_lineno (LStr t) = (t \<noteq> [])"

definition loadSqliteDatabase :: "collab \<Rightarrow> string \<Rightarrow> bool act" where
  "loadSqliteDatabase env uri =
     (case dbexplorer env of
        None \<Rightarrow> ret False
      | Some addSqliteDatabaseFromURI \<Rightarrow>
          (case lastIndexOf CHR ''.'' uri of
             None \<Rightarrow> ret False
           | Some lastDot \<Rightarrow>
               if lastDot = length uri - 1 then ret False
               else if drop (lastDot + 1) uri \<notin> set [''db'', ''sqlite'', ''sqlite3'']
               then ret False
               else request (AddSqliteDatabaseFromURI uri) (addSqliteDatabaseFromURI uri)))"

definition installAddon :: "collab \<Rightarrow> string \<Rightarrow> unit act" where
  "installAddon env uri = request (InstallPackageByUrl uri) (outcome (installPackageByUrl env uri))"

subsection \<open>Importing a colour scheme\<close>

text \<open>
  The key under which \<^verbatim>\<open>_checkKSFBaseName\<close> compares scheme names: lower case on the
  platforms of the \<^verbatim>\<open>#if PLATFORM == 'darwin' or PLATFORM == 'win'\<close> blocks.
\<close>

definition scheme_name_key :: "platform \<Rightarrow> string \<Rightarrow> string" where
  "scheme_name_key pf name = (if pf = Darwin \<or> pf = Win then toLowerCase name else name)"

text \<open>
  One round of the loop of \<^verbatim>\<open>_checkKSFBaseName\<close>: the prompt to show when the name is
  refused, \<open>None\<close> when it is accepted. \<^verbatim>\<open>currentSchemeNames\<close> is a plain object, so the
  names it inherits count as taken.
\<close>

definition scheme_name_problem :: "collab \<Rightarrow> string \<Rightarrow> string option" where
  "scheme_name_problem env newSchemeName =
     (if length newSchemeName = 0 \<or> \<not> schemeNameIsValid env newSchemeName
      then Some (formatStringFromName env ''schemeNameHasInvalidCharacters.template''
                   [newSchemeName])
      else if scheme_name_key (platform env) newSchemeName
                \<in> set (map (scheme_name_key (platform env)) (getSchemeNames env))
                  \<union> set (object_proto_keys env)
      then Some (formatStringFromName env ''schemeExists.template'' [newSchemeName])
      else None)"

text \<open>
  The \<^verbatim>\<open>while (true)\<close> loop, over the answers the user will give: the result, the answers
  left and the prompts shown.
\<close>

fun checkKSF_loop ::
  "collab \<Rightarrow> string \<Rightarrow> string \<Rightarrow> string option list
     \<Rightarrow> string option \<times> string option list \<times> event list" where
  "checkKSF_loop env ext newSchemeName [] =
     (case scheme_name_problem env newSchemeName of
        None \<Rightarrow> (Some (newSchemeName @ ext), [], [])
      | Some prompt \<Rightarrow>
          (None, [],
           [Dialogs_prompt prompt (GetStringFromName env ''newSchemeName.label'') newSchemeName]))"
| "checkKSF_loop env ext newSchemeName (a # rest) =
     (case scheme_name_problem env newSchemeName of
        None \<Rightarrow> (Some (newSchemeName @ ext), a # rest, [])
      | Some prompt \<Rightarrow>
          (case a of
             None \<Rightarrow>
               (None, rest,
                [Dialogs_prompt prompt (GetStringFromName env ''newSchemeName.label'')
                   newSchemeName])
           | Some answer \<Rightarrow>
               if answer = [] then
                 (None, rest,
                  [Dialogs_prompt prompt (GetStringFromName env ''newSchemeName.label'')
                     newSchemeName])
               else
                 (case checkKSF_loop env ext answer rest of
                    (r, rest', evs) \<Rightarrow>
                      (r, rest',
                       Dialogs_prompt prompt (GetStringFromName env ''newSchemeName.label'')
                         newSchemeName # evs))))"

definition checkKSFBaseName :: "collab \<Rightarrow> string \<Rightarrow> string option act" where
  "checkKSFBaseName env uri =
     bnd (query (baseName env uri)) (\<lambda>schemeBaseName.
     bnd (query (uri_ext env uri)) (\<lambda>ext.
       (\<lambda>s. case checkKSF_loop env ext
                   (take (case lastIndexOf_str ext schemeBaseName of None \<Rightarrow> 0 | Some i \<Rightarrow> i)
                      schemeBaseName)
                   (prompt_answers s) of
               (r, rest, evs) \<Rightarrow>
                 (Inr r, s\<lparr>prompt_answers := rest, trace := trace s @ evs\<rparr>))))"

definition notifyHowtoRestoreOldScheme :: "collab \<Rightarrow> string \<Rightarrow> string \<Rightarrow> unit act" where
  "notifyHowtoRestoreOldScheme env oldSchemeName newSchemeName =
     (\<lambda>s.
        let old = (if notification_present s
                   then (case preNotificationSessionSchemeName s of
                           None \<Rightarrow> oldSchemeName
                         | Some p \<Rightarrow> if p = [] then oldSchemeName else p)
                   else oldSchemeName);
            s1 = (if notification_present s
                  then (case removeAllNotifications env of
                          None \<Rightarrow>
                            s\<lparr>notification_present := False,
                              trace := trace s @ [RemoveAllNotifications]\<rparr>
                        | Some ex \<Rightarrow>
                            s\<lparr>trace := trace s @ [RemoveAllNotifications, Log_exception ex]\<rparr>)
                  else s)
        in (Inr (),
            s1\<lparr>notification_present := True,
               preNotificationSessionSchemeName := Some old,
               trace := trace s1 @
                 [AppendNotification
                    (formatStringFromName env ''schemeChangeNotification.template''
                       [newSchemeName])
                    old]\<rparr>))"


subsection \<open>\<^verbatim>\<open>URIAtLine\<close>\<close>

text \<open>
  Inside the last \<^verbatim>\<open>else\<close> of \<^verbatim>\<open>URIAtLine\<close> a branch either executes \<^verbatim>\<open>return null\<close>, or
  falls through to the assignment \<^verbatim>\<open>this.skipNextPrompt = false\<close> with the view type it
  leaves in \<^verbatim>\<open>viewType\<close>.
\<close>

datatype flow = Return_null | Fall_through "string option"

text \<open>The branch of \<^verbatim>\<open>.ksf\<close> files (lines 177-205).\<close>

definition open_ksf ::
  "collab \<Rightarrow> string \<Rightarrow> string list \<Rightarrow> string list \<Rightarrow> string option \<Rightarrow> flow act" where
  "open_ksf env uri buttons responses viewType =
     bnd (query (baseName env uri)) (\<lambda>bn.
     bnd (request
            (CustomButtons (formatStringFromName env ''importFileAsScheme.prompt'' [bn]) buttons
               (GetStringFromName env ''openingSchemeFile.label''))
            (customButtons env (formatStringFromName env ''importFileAsScheme.prompt'' [bn])
               buttons (GetStringFromName env ''openingSchemeFile.label''))) (\<lambda>answer.
       if falsy answer \<or> answer = Some (responses ! 2) then ret Return_null
       else if answer = Some (responses ! 0) then
         bnd (checkKSFBaseName env uri) (\<lambda>schemeBaseName.
           case schemeBaseName of
             None \<Rightarrow> ret Return_null
           | Some sbn \<Rightarrow>
               if sbn = [] then ret Return_null
               else
                 try_catch
                   (bnd (request (LoadSchemeFromURI uri sbn) (loadSchemeFromURI env uri sbn))
                      (\<lambda>newSchemeName.
                    bnd (request (ActivateScheme newSchemeName)
                           (activateScheme env newSchemeName)) (\<lambda>oldScheme.
                    bnd (notifyHowtoRestoreOldScheme env oldScheme newSchemeName) (\<lambda>_.
                    ret Return_null))))
                   (\<lambda>ex.
                    bnd (emit (Window_alert ex)) (\<lambda>_.
                    bnd (emit (Log_exception ex)) (\<lambda>_.
                    ret (Fall_through viewType)))))
       else ret (Fall_through viewType)))"

text \<open>The branch of \<^verbatim>\<open>.sublime-snippet\<close> files (lines 206-219).\<close>

definition open_sublime_snippet ::
  "collab \<Rightarrow> string \<Rightarrow> string list \<Rightarrow> string list \<Rightarrow> string option \<Rightarrow> flow act" where
  "open_sublime_snippet env uri buttons responses viewType =
     bnd (request
            (CustomButtons (GetStringFromName env ''importSublimeFileAsTool.prompt'') buttons
               (GetStringFromName env ''openingSublimeFile.label''))
            (customButtons env (GetStringFromName env ''importSublimeFileAsTool.prompt'') buttons
               (GetStringFromName env ''openingSublimeFile.label''))) (\<lambda>answer.
       if falsy answer \<or> answer = Some (responses ! 2) then ret Return_null
       else if answer = Some (responses ! 0) then
         bnd (query (URIToPath env uri)) (\<lambda>path.
         bnd (request (ImportSublimeSnippet path)
                (outcome (importSublimeSnippet_dragDrop env path))) (\<lambda>_.
         ret Return_null))
       else ret (Fall_through viewType))"

text \<open>The branch of \<^verbatim>\<open>.komodotool\<close> and \<^verbatim>\<open>.ktf\<close> files (lines 220-233).\<close>

definition open_komodo_tool ::
  "collab \<Rightarrow> string \<Rightarrow> string list \<Rightarrow> string list \<Rightarrow> string option \<Rightarrow> flow act" where
  "open_komodo_tool env uri buttons responses viewType =
     bnd (request
            (CustomButtons (GetStringFromName env ''importFileAsKomodoTool.prompt'') buttons
               (GetStringFromName env ''openingKomodoToolFile.label''))
            (customButtons env (GetStringFromName env ''importFileAsKomodoTool.prompt'') buttons
               (GetStringFromName env ''openingKomodoToolFile.label''))) (\<lambda>answer.
       if falsy answer \<or> answer = Some (responses ! 2) then ret Return_null
       else if answer = Some (responses ! 0) then
         bnd (query (URIToPath env uri)) (\<lambda>path.
         bnd (request (ImportFilesFromFileSystem path)
                (outcome (importFilesFromFileSystem_dragDrop env path))) (\<lambda>_.
         ret Return_null))
       else ret (Fall_through viewType))"

text \<open>The block guarded by \<^verbatim>\<open>if ( ! this.skipNextPrompt)\<close> (lines 176-239).\<close>

definition prompt_phase ::
  "collab \<Rightarrow> string \<Rightarrow> string list \<Rightarrow> string list \<Rightarrow> string option \<Rightarrow> flow act" where
  "prompt_phase env uri buttons responses viewType =
     (\<lambda>s.
        if skipNextPrompt s then (Inr (Fall_through viewType), s)
        else if ends_with_ci ''.ksf'' uri then open_ksf env uri buttons responses viewType s
        else if ends_with_ci ''.sublime-snippet'' uri
        then open_sublime_snippet env uri buttons responses viewType s
        else if ends_with_ci ''.komodotool'' uri \<or> ends_with_ci ''.ktf'' uri
        then open_komodo_tool env uri buttons responses viewType s
        else if falsy viewType \<and> (isImageUrl uri \<or> isAudioUrl uri)
        then (Inr (Fall_through (Some ''browser'')), s)
        else (Inr (Fall_through viewType), s))"

text \<open>Lines 240-246: the flag is reset and the view manager is asked to open the file.\<close>

definition open_in_view_manager ::
  "collab \<Rightarrow> string \<Rightarrow> lineno option \<Rightarrow> string option \<Rightarrow> callback option \<Rightarrow> unit act" where
  "open_in_view_manager env uri lineno viewType cb =
     (\<lambda>s.
        (case lineno of
           None \<Rightarrow> request (DoFileOpenAsync uri viewType cb) (outcome (doFileOpenAsync env uri viewType))
         | Some l \<Rightarrow>
             if truthy_lineno l
             then request (DoFileOpenAtLineAsync uri l viewType cb)
                    (outcome (doFileOpenAtLineAsync env uri l viewType))
             else request (DoFileOpenAsync uri viewType cb)
                    (outcome (doFileOpenAsync env uri viewType)))
          (s\<lparr>skipNextPrompt := False\<rparr>))"

text \<open>The last \<^verbatim>\<open>else\<close> of the dispatch (lines 170-247).\<close>

definition open_document ::
  "collab \<Rightarrow> string \<Rightarrow> lineno option \<Rightarrow> string option \<Rightarrow> callback option \<Rightarrow> unit act" where
  "open_document env uri lineno viewType cb =
     bnd (prompt_phase env uri
            [GetStringFromName env ''OK.customButtonLabel'',
             GetStringFromName env ''openAsText.customButtonLabel'',
             GetStringFromName env ''Cancel.customButtonLabel'']
            (removeAmpersands
               [GetStringFromName env ''OK.customButtonLabel'',
                GetStringFromName env ''openAsText.customButtonLabel'',
                GetStringFromName env ''Cancel.customButtonLabel''])
            viewType) (\<lambda>fl.
       case fl of
         Return_null \<Rightarrow> ret ()
       | Fall_through vt \<Rightarrow> open_in_view_manager env uri lineno vt cb)"

text \<open>The dispatch on the uri after the line number was split off (lines 158-247).\<close>

definition dispatch ::
  "collab \<Rightarrow> string \<Rightarrow> lineno option \<Rightarrow> string option \<Rightarrow> bool \<Rightarrow> callback option \<Rightarrow> unit act"
  where
  "dispatch env uri lineno viewType skipRecentOpenFeature cb =
     (if ends_with_ci ''.kpf'' uri \<or> ends_with_ci ''.komodoproject'' uri
      then request (Projects_open uri skipRecentOpenFeature)
             (outcome (projects_open env uri skipRecentOpenFeature))
      else if ends_with_ci ''.xpi'' uri
      then try_catch (installAddon env uri) (\<lambda>ex.
             request
               (Dialogs_alert
                  (GetStringFromName env ''installingExtensionIsCurrentlyDisabled'' @ '' '' @ ex))
               (outcome
                  (dialogs_alert env
                     (GetStringFromName env ''installingExtensionIsCurrentlyDisabled'' @ '' '' @ ex))))
      else if ends_with_ci ''.kpz'' uri
      then request (ImportPackage uri) (outcome (importPackage env uri))
      else bnd (loadSqliteDatabase env uri) (\<lambda>handled.
             if handled then ret () else open_document env uri lineno viewType cb))"

text \<open>The body of the \<^verbatim>\<open>try\<close> block of \<^verbatim>\<open>URIAtLine\<close>.\<close>

definition URIAtLine_try ::
  "collab \<Rightarrow> string \<Rightarrow> lineno option \<Rightarrow> string option \<Rightarrow> bool \<Rightarrow> callback option \<Rightarrow> unit act"
  where
  "URIAtLine_try env uri lineno viewType skipRecentOpenFeature cb =
     bnd (query (pathToURI env uri)) (\<lambda>uri1.
       dispatch env (fst (split_lineno uri1 lineno)) (snd (split_lineno uri1 lineno))
         viewType skipRecentOpenFeature cb)"

text \<open>
  \<^verbatim>\<open>ko.open.URIAtLine\<close>: the \<^verbatim>\<open>try\<close> block, the handler that logs, and \<^verbatim>\<open>return null\<close> (the
  unit result).
\<close>

definition URIAtLine ::
  "collab \<Rightarrow> string \<Rightarrow> lineno option \<Rightarrow> string option \<Rightarrow> bool \<Rightarrow> callback option \<Rightarrow> unit act"
  where
  "URIAtLine env uri lineno viewType skipRecentOpenFeature cb =
     bnd (emit (Enter_URIAtLine uri lineno viewType skipRecentOpenFeature cb)) (\<lambda>_.
       try_catch (URIAtLine_try env uri lineno viewType skipRecentOpenFeature cb)
         (\<lambda>e. emit (Log_exception e)))"

definition URI ::
  "collab \<Rightarrow> string \<Rightarrow> string option \<Rightarrow> bool \<Rightarrow> callback option \<Rightarrow> unit act" where
  "URI env uri viewType skipRecentOpenFeature cb =
     URIAtLine env uri None viewType skipRecentOpenFeature cb"

text \<open>
  \<^verbatim>\<open>ko.open.recentURI\<close>. The calls it makes outside any \<^verbatim>\<open>try\<close> block (the file service, the
  most-recently-used lists, the places view) are taken to return.
\<close>

definition recentURI :: "collab \<Rightarrow> string \<Rightarrow> string option \<Rightarrow> bool \<Rightarrow> unit act" where
  "recentURI env uri viewType skipRecentOpenFeature =
     (\<lambda>s.
        URI env uri (if falsy viewType then Some ''editor'' else viewType) skipRecentOpenFeature
          (Some (PruneFileMRU uri))
          (if ends_with_ci ''.kpf'' uri \<or> ends_with_ci ''.komodoproject'' uri
           then (if file_exists env uri then s
                 else if single_project_view env
                 then s\<lparr>trace := trace s @ [Mru_removeURL ''mruProjectList'' uri, RebuildView]\<rparr>
                 else s\<lparr>trace := trace s @ [Mru_removeURL ''mruProjectList'' uri]\<rparr>)
           else s))"


subsection \<open>\<^verbatim>\<open>displayPath\<close>\<close>

text \<open>\<^verbatim>\<open>_fequal\<close>, with the comparison the preprocessor keeps for the platform.\<close>

definition fequal :: "platform \<Rightarrow> string \<Rightarrow> string \<Rightarrow> bool" where
  "fequal pf a b = (if pf = Win \<or> pf = Darwin then toLowerCase a = toLowerCase b else a = b)"

text \<open>
  The \<^verbatim>\<open>for\<close> loop of \<^verbatim>\<open>displayPath\<close> over the views of the type. The result is \<open>True\<close> when
  the loop executed \<^verbatim>\<open>return\<close>, which stands inside \<^verbatim>\<open>if (callback)\<close>; otherwise the loop goes on
  to the next view.
\<close>

fun displayPath_loop ::
  "platform \<Rightarrow> view list \<Rightarrow> string \<Rightarrow> callback option \<Rightarrow> ostate \<Rightarrow> bool \<times> ostate" where
  "displayPath_loop pf [] path cb s = (False, s)"
| "displayPath_loop pf (typedView # rest) path cb s =
     (case koDoc typedView of
        None \<Rightarrow> displayPath_loop pf rest path cb s
      | Some docPath \<Rightarrow>
          if fequal pf docPath path then
            (case cb of
               Some c \<Rightarrow>
                 (True,
                  s\<lparr>trace := trace s @
                       [MakeCurrent (view_id typedView),
                        Invoke_callback c (Some (view_id typedView))]\<rparr>)
             | None \<Rightarrow>
                 displayPath_loop pf rest path cb
                   (s\<lparr>trace := trace s @ [MakeCurrent (view_id typedView)]\<rparr>))
          else displayPath_loop pf rest path cb s)"

definition displayPath ::
  "collab \<Rightarrow> string \<Rightarrow> string option \<Rightarrow> callback option \<Rightarrow> unit act" where
  "displayPath env path viewType cb =
     (\<lambda>s.
        case displayPath_loop (platform env)
               (getViewsByType env (case viewType of None \<Rightarrow> ''editor''
                                    | Some t \<Rightarrow> if t = [] then ''editor'' else t))
               path cb s of
          (returned, s') \<Rightarrow>
            if returned then (Inr (), s')
            else URI env path
                   (Some (case viewType of None \<Rightarrow> ''editor''
                          | Some t \<Rightarrow> if t = [] then ''editor'' else t))
                   True cb s')"

subsection \<open>\<^verbatim>\<open>multipleURIs\<close>\<close>

text \<open>The remembered files of one url: the body of the first loop of \<^verbatim>\<open>multipleURIs\<close>.\<close>

definition remembered_files :: "collab \<Rightarrow> string \<Rightarrow> string list" where
  "remembered_files env url =
     (case viewStateMRU env url of
        None \<Rightarrow> []
      | Some projectViewState \<Rightarrow>
          (case projectViewState of None \<Rightarrow> [] | Some opened_files \<Rightarrow> opened_files))"

text \<open>The loop that opens the urls one after the other; an exception would end it.\<close>

primrec open_each :: "(string \<Rightarrow> unit act) \<Rightarrow> string list \<Rightarrow> unit act" where
  "open_each openMethod [] = ret ()"
| "open_each openMethod (u # us) = bnd (openMethod u) (\<lambda>_. open_each openMethod us)"

text \<open>Lines 462-482: batch mode, the opens, and the listener for \<^verbatim>\<open>view_opened\<close>.\<close>

definition open_batch :: "collab \<Rightarrow> string list \<Rightarrow> string option \<Rightarrow> bool \<Rightarrow> unit act" where
  "open_batch env urls viewType isRecent =
     bnd (\<lambda>s. (Inr (), if 1 < length urls then s\<lparr>batchMode := True\<rparr> else s)) (\<lambda>_.
     bnd (open_each
            (\<lambda>u. if isRecent then recentURI env u viewType True else URI env u viewType True None)
            urls) (\<lambda>_.
     emit (AddEventListener ''view_opened'')))"

definition multipleURIs :: "collab \<Rightarrow> string list \<Rightarrow> string option \<Rightarrow> bool \<Rightarrow> unit act" where
  "multipleURIs env urls viewType isRecent =
     (if urls = [] then ret ()
      else if concat (map (remembered_files env) urls) = [] then open_batch env urls viewType isRecent
      else
        bnd (emit (YesNoCancel (GetStringFromName env ''reopenProjectFilesPrompt''))) (\<lambda>_.
          if yesNoCancel env (GetStringFromName env ''reopenProjectFilesPrompt'') = ''Cancel''
          then ret ()
          else if yesNoCancel env (GetStringFromName env ''reopenProjectFilesPrompt'') = ''Yes''
          then open_batch env (urls @ concat (map (remembered_files env) urls)) viewType isRecent
          else open_batch env urls viewType isRecent))"

subsection \<open>Reading the record of requests\<close>

text \<open>
  The entries into \<^verbatim>\<open>URIAtLine\<close>, the requests to the view manager to open a file, and the
  invocations of a callback (with the view it receives, \<open>None\<close> for \<^verbatim>\<open>null\<close>).
\<close>

definition is_enter :: "event \<Rightarrow> bool" where
  "is_enter ev = (case ev of Enter_URIAtLine u l v k c \<Rightarrow> True | _ \<Rightarrow> False)"

definition is_open_request :: "event \<Rightarrow> bool" where
  "is_open_request ev =
     (case ev of
        DoFileOpenAtLineAsync u l v c \<Rightarrow> True
      | DoFileOpenAsync u v c \<Rightarrow> True
      | _ \<Rightarrow> False)"

definition is_callback :: "event \<Rightarrow> bool" where
  "is_callback ev = (case ev of Invoke_callback c v \<Rightarrow> True | _ \<Rightarrow> False)"

definition is_prompt :: "event \<Rightarrow> bool" where
  "is_prompt ev =
     (case ev of
        CustomButtons p b t \<Rightarrow> True
      | Dialogs_prompt p l d \<Rightarrow> True
      | YesNoCancel p \<Rightarrow> True
      | _ \<Rightarrow> False)"

text \<open>The number of single opens requested so far.\<close>

definition open_calls :: "ostate \<Rightarrow> nat" where
  "open_calls s = length (filter is_enter (trace s))"

text \<open>
  The request that lines 242-246 make for a uri, a line number and a view type, and what
  the view manager answers to it.
\<close>

definition open_request ::
  "string \<Rightarrow> lineno option \<Rightarrow> string option \<Rightarrow> callback option \<Rightarrow> event" where
  "open_request uri lineno viewType cb =
     (case lineno of
        None \<Rightarrow> DoFileOpenAsync uri viewType cb
      | Some l \<Rightarrow>
          if truthy_lineno l then DoFileOpenAtLineAsync uri l viewType cb
          else DoFileOpenAsync uri viewType cb)"

definition open_outcome ::
  "collab \<Rightarrow> string \<Rightarrow> lineno option \<Rightarrow> string option \<Rightarrow> exn option" where
  "open_outcome env uri lineno viewType =
     (case lineno of
        None \<Rightarrow> doFileOpenAsync env uri viewType
      | Some l \<Rightarrow>
          if truthy_lineno l then doFileOpenAtLineAsync env uri l viewType
          else doFileOpenAsync env uri viewType)"

text \<open>
  A concrete set of collaborators, for running the module: Linux, paths are their own
  uris, no database explorer, every dialog is dismissed, nothing raises, one editor view
  shows \<^verbatim>\<open>/tmp/notes.txt\<close>, and the project \<^verbatim>\<open>/p/site.komodoproject\<close> remembers two files.
\<close>

definition plain_env :: collab where
  "plain_env =
     \<lparr>platform = Linux,
      object_proto_keys = [''constructor'', ''toString'', ''valueOf'', ''hasOwnProperty''],
      pathToURI = Inr,
      baseName = Inr,
      uri_ext = (\<lambda>u. Inr []),
      URIToPath = Inr,
      projects_open = (\<lambda>u k. None),
      installPackageByUrl = (\<lambda>u. None),
      dialogs_alert = (\<lambda>m. None),
      importPackage = (\<lambda>u. None),
      dbexplorer = None,
      GetStringFromName = (\<lambda>k. k),
      formatStringFromName = (\<lambda>k args. k),
      customButtons = (\<lambda>p b t. Inr None),
      getSchemeNames = [],
      schemeNameIsValid = (\<lambda>n. True),
      loadSchemeFromURI = (\<lambda>u n. Inr n),
      activateScheme = (\<lambda>n. Inr ''Default''),
      removeAllNotifications = None,
      importSublimeSnippet_dragDrop = (\<lambda>p. None),
      importFilesFromFileSystem_dragDrop = (\<lambda>p. None),
      doFileOpenAtLineAsync = (\<lambda>u l v. None),
      doFileOpenAsync = (\<lambda>u v. None),
      getViewsByType =
        (\<lambda>t. if t = ''editor'' then [\<lparr>view_id = 7, koDoc = Some ''/tmp/notes.txt''\<rparr>] else []),
      file_exists = (\<lambda>u. True),
      single_project_view = False,
      viewStateMRU =
        (\<lambda>u. if u = ''/p/site.komodoproject'' then Some (Some [''/p/a.html'', ''/p/b.css''])
             else None),
      yesNoCancel = (\<lambda>p. ''Yes'')\<rparr>"

definition initial_ostate :: ostate where
  "initial_ostate =
     \<lparr>skipNextPrompt = False,
      preNotificationSessionSchemeName = None,
      notification_present = False,
      prompt_answers = [],
      batchMode = False,
      trace = []\<rparr>"


section \<open>The dynamic button registry (\<^verbatim>\<open>dynamic-button.js\<close>)\<close>

subsection \<open>Options, widgets and state\<close>

text \<open>
  The options object a caller passes: every key may be absent. A command is the name of a
  Komodo command or a function; functions of the caller (commands, enablement predicates,
  menu providers) are identified by numbers.
\<close>

datatype command = CommandName string | CommandFn nat

record button_opts =
  o_id :: "string option"
  o_label :: "string option"
  o_tooltip :: "string option"
  o_classList :: "string option"
  o_command :: "command option"
  o_icon :: "string option"
  o_image :: "string option"
  o_ordinal :: "nat option"
  o_menuitems :: "nat option"
  o_menuitemsInitialize :: "nat option"
  o_group :: "string option"
  o_groupOrdinal :: "nat option"
  o_isEnabled :: "nat option"
  o_events :: "string list option"

text \<open>
  \<^verbatim>\<open>opts.isEnabled\<close> after \<^verbatim>\<open>init\<close>: the caller's predicate, the query of the command's
  controller, or \<^verbatim>\<open>() => false\<close>.
\<close>

datatype enabler = UserPredicate nat | CommandEnabled string | NeverEnabled

text \<open>The options after \<^verbatim>\<open>_.extend\<close> has laid them over the defaults of \<^verbatim>\<open>register\<close>.\<close>

record full_opts =
  f_id :: string
  f_group :: string
  f_label :: "string option"
  f_tooltip :: "string option"
  f_isEnabled :: "nat option"
  f_command :: "command option"
  f_menuitems :: "nat option"
  f_menuitemsInitialize :: "nat option"
  f_icon :: "string option"
  f_image :: "string option"
  f_classList :: string
  f_ordinal :: "nat option"
  f_groupOrdinal :: "nat option"
  f_events :: "string list"

text \<open>
  A widget: its options, the predicate \<^verbatim>\<open>init\<close> settled on, the attributes of its
  \<^verbatim>\<open>toolbarbutton\<close> (a string or a number each), whether a \<^verbatim>\<open>menupopup\<close> hangs below it,
  the group item the button sits in, by its position among the group items of the toolbar
  (\<open>None\<close> while the button is not in the document), and \<^verbatim>\<open>this.update._timer\<close>.
\<close>

datatype attr_value = AStr string | ANum nat

record widget =
  w_opts :: full_opts
  w_isEnabled :: enabler
  w_attrs :: "string \<rightharpoonup> attr_value"
  w_menupopup :: bool
  w_parent :: "nat option"
  w_timer :: "nat option"

record group_item =
  g_ordinal :: "nat option"
  g_collapsed :: "string option"
  g_children :: "string list"

datatype subscription = Observe string | PrefObserve string | WindowEvent string

datatype berror = Error string | TypeError string | SyntaxError string

text \<open>
  What the platform supplies: the names a plain object inherits (the \<^verbatim>\<open>in\<close> operator
  finds them); what the selector \<^verbatim>\<open>"#dynamicBtnGrp-" + group\<close> gives for a group name that
  is more than word characters and hyphens, among group items of the given names: an
  error of the selector syntax, or the position of the first item found, if any; whether a
  controller answers for a command; and the answers of the controllers and of the callers'
  predicates at a time (in milliseconds).
\<close>

record button_env =
  proto_keys :: "string list"
  select_group :: "string \<Rightarrow> string list \<Rightarrow> berror + nat option"
  controller_for :: "string \<Rightarrow> bool"
  isCommandEnabled :: "string \<Rightarrow> nat \<Rightarrow> bool"
  predicate :: "nat \<Rightarrow> nat \<Rightarrow> bool"

text \<open>
  The state of the module and of what it changes: the registry \<^verbatim>\<open>buttons\<close>; the persisted
  \<^verbatim>\<open>ss.storage.buttons\<close> (an entry is \<open>None\<close> for \<^verbatim>\<open>{}\<close>, else its \<^verbatim>\<open>hide\<close> flag); the group
  items of \<^verbatim>\<open>#side-top-toolbar\<close> in document order, each with the name that follows
  \<^verbatim>\<open>dynamicBtnGrp-\<close> in its id, their children named by registry key; the
  observers and listeners added; the timers of the main window as (id, deadline, key of the
  widget whose \<^verbatim>\<open>update(true)\<close> is due), the next timer id and the time; and each call of
  \<^verbatim>\<open>opts.isEnabled\<close> made by \<^verbatim>\<open>update\<close>, as (key, answer).
\<close>

record bstate =
  buttons :: "string \<rightharpoonup> widget"
  storage :: "string \<rightharpoonup> bool option"
  toolbar :: "(string \<times> group_item) list"
  subscriptions :: "(subscription \<times> string) list"
  timers :: "(nat \<times> nat \<times> string) list"
  next_timer :: nat
  clock :: nat
  recomputed :: "(string \<times> bool) list"

subsection \<open>The widget\<close>

text \<open>\<^verbatim>\<open>a || b\<close> on optional strings, and the truthiness of an optional number.\<close>

definition js_or :: "string option \<Rightarrow> string option \<Rightarrow> string option" where
  "js_or a b = (if falsy a then b else a)"

definition truthy_num :: "nat option \<Rightarrow> bool" where
  "truthy_num n = (case n of None \<Rightarrow> False | Some k \<Rightarrow> k \<noteq> 0)"

text \<open>\<^verbatim>\<open>id in buttons\<close>: an own key of the registry, or a name every object inherits.\<close>

definition has_key :: "button_env \<Rightarrow> (string \<rightharpoonup> widget) \<Rightarrow> string \<Rightarrow> bool" where
  "has_key env reg k = (k \<in> dom reg \<or> k \<in> set (proto_keys env))"

text \<open>The truthiness of \<^verbatim>\<open>opts.command\<close>: a function, or a name that is not empty.\<close>

definition truthy_command :: "command option \<Rightarrow> bool" where
  "truthy_command c =
     (case c of None \<Rightarrow> False | Some (CommandName n) \<Rightarrow> n \<noteq> [] | Some (CommandFn f) \<Rightarrow> True)"

text \<open>The attributes \<^verbatim>\<open>init\<close> gives the new \<^verbatim>\<open>toolbarbutton\<close> (lines 78-122).\<close>

definition initial_attrs :: "full_opts \<Rightarrow> string \<rightharpoonup> attr_value" where
  "initial_attrs opts =
     (let a0 = [''id'' \<mapsto> AStr (''dynamicBtn-'' @ f_id opts), ''type'' \<mapsto> AStr ''button'',
                ''disabled'' \<mapsto> AStr ''true'',
                ''class'' \<mapsto> AStr (''dynamic-button '' @ f_classList opts @
                   (case f_icon opts of
                      None \<Rightarrow> []
                    | Some i \<Rightarrow> if i = [] then [] else '' icon-'' @ i))];
          a1 = (case f_tooltip opts of None \<Rightarrow> a0 | Some t \<Rightarrow> a0(''tooltiptext'' \<mapsto> AStr t));
          a2 = (case f_command opts of
                  Some (CommandName c) \<Rightarrow>
                    a1(''oncommand'' \<mapsto>
                         AStr (''ko.commands.doCommandAsync('' @ [CHR 0x27] @ c @ [CHR 0x27] @
                               '', event)''),
                       ''observes'' \<mapsto> AStr c)
                | _ \<Rightarrow> a1);
          a3 = (if falsy (f_icon opts)
                then (case f_image opts of
                        None \<Rightarrow> a2
                      | Some i \<Rightarrow> if i = [] then a2 else a2(''image'' \<mapsto> AStr i))
                else a2);
          a4 = (case f_label opts of
                  None \<Rightarrow> a3
                | Some l \<Rightarrow> if l = [] then a3 else a3(''label'' \<mapsto> AStr l));
          a5 = (case f_ordinal opts of
                  None \<Rightarrow> a4
                | Some n \<Rightarrow> if n = 0 then a4 else a4(''ordinal'' \<mapsto> ANum n))
      in if f_menuitems opts = None then a5
         else a5(''type'' \<mapsto>
                   AStr (if truthy_command (f_command opts) then ''menu-button'' else ''menu'')))"

text \<open>Lines 134-150: the predicate of the button.\<close>

definition settle_isEnabled :: "button_env \<Rightarrow> full_opts \<Rightarrow> enabler" where
  "settle_isEnabled env opts =
     (case f_isEnabled opts of
        Some p \<Rightarrow> UserPredicate p
      | None \<Rightarrow>
          (case f_command opts of
             Some (CommandName c) \<Rightarrow> if controller_for env c then CommandEnabled c else NeverEnabled
           | _ \<Rightarrow> NeverEnabled))"

definition enabled_at :: "button_env \<Rightarrow> enabler \<Rightarrow> nat \<Rightarrow> bool" where
  "enabled_at env e t =
     (case e of
        UserPredicate p \<Rightarrow> predicate env p t
      | CommandEnabled c \<Rightarrow> isCommandEnabled env c t
      | NeverEnabled \<Rightarrow> False)"

text \<open>Lines 157-173: one observer or listener for each event, and the listener for
  \<^verbatim>\<open>update_dynamic_buttons\<close>.\<close>

definition subscription_of :: "string \<Rightarrow> subscription" where
  "subscription_of event =
     (if take 8 event = ''observe:'' then Observe (drop 8 event)
      else if take 5 event = ''pref:'' then PrefObserve (drop 5 event)
      else WindowEvent event)"

definition subscribe :: "string \<Rightarrow> string list \<Rightarrow> (subscription \<times> string) list" where
  "subscribe key events =
     map (\<lambda>event. (subscription_of event, key)) events @
     [(WindowEvent ''update_dynamic_buttons'', key)]"

text \<open>
  \<^verbatim>\<open>w.clearTimeout(id)\<close> and \<^verbatim>\<open>w.setTimeout(this.update.bind(this, true), 250)\<close> on the timers
  of the window; timer ids are never used twice.
\<close>

definition clearTimeout :: "nat option \<Rightarrow> (nat \<times> nat \<times> string) list \<Rightarrow> (nat \<times> nat \<times> string) list"
  where
  "clearTimeout tid ts = (case tid of None \<Rightarrow> ts | Some i \<Rightarrow> filter (\<lambda>t. fst t \<noteq> i) ts)"

text \<open>
  The first branch of \<^verbatim>\<open>update\<close> (lines 193-198), for \<^verbatim>\<open>now !== true\<close>: the pending timer
  of the widget is cleared and a new one is set, 250 ms from now.
\<close>

definition debounce :: "string \<Rightarrow> widget \<Rightarrow> bstate \<Rightarrow> widget \<times> bstate" where
  "debounce key w s =
     (w\<lparr>w_timer := Some (next_timer s)\<rparr>,
      s\<lparr>timers := clearTimeout (w_timer w) (timers s) @ [(next_timer s, clock s + 250, key)],
        next_timer := Suc (next_timer s)\<rparr>)"

text \<open>
  The children of a group that the selector of line 208 finds: the dynamic buttons whose
  \<^verbatim>\<open>disabled\<close> attribute is \<^verbatim>\<open>"false"\<close> or absent.
\<close>

definition visible_children :: "(string \<rightharpoonup> widget) \<Rightarrow> string list \<Rightarrow> string list" where
  "visible_children reg children =
     filter (\<lambda>k. case reg k of
                   None \<Rightarrow> False
                 | Some c \<Rightarrow>
                     w_attrs c ''disabled'' = Some (AStr ''false'') \<or> w_attrs c ''disabled'' = None)
       children"

text \<open>The group item at a position of the toolbar, replaced.\<close>

definition set_group :: "nat \<Rightarrow> group_item \<Rightarrow> (string \<times> group_item) list
    \<Rightarrow> (string \<times> group_item) list" where
  "set_group i gi tb = (if i < length tb then tb[i := (fst (tb ! i), gi)] else tb)"

type_synonym 'a bres = "(berror + 'a) \<times> bstate"

text \<open>The error an operation raised, \<open>None\<close> when it returned.\<close>

definition error_of :: "'a bres \<Rightarrow> berror option" where
  "error_of r = (case fst r of Inl e \<Rightarrow> Some e | Inr x \<Rightarrow> None)"

text \<open>
  The second branch of \<^verbatim>\<open>update\<close> (lines 200-212), for \<^verbatim>\<open>now === true\<close>, on the widget
  registered under \<open>key\<close>: the predicate is called, the \<^verbatim>\<open>disabled\<close> attribute is set, and the
  group is collapsed when no child is visible. A button that is not in the document has no
  \<^verbatim>\<open>parentNode\<close>, and reading its \<^verbatim>\<open>childNodes\<close> raises after the attribute was set.
\<close>

definition recompute :: "button_env \<Rightarrow> string \<Rightarrow> widget \<Rightarrow> bstate \<Rightarrow> unit bres" where
  "recompute env key w s =
     (let enabled = enabled_at env (w_isEnabled w) (clock s);
          s1 = s\<lparr>buttons := (buttons s)(key \<mapsto>
                    w\<lparr>w_attrs := (w_attrs w)(''disabled'' \<mapsto>
                          AStr (if enabled then ''false'' else ''true''))\<rparr>),
                 recomputed := recomputed s @ [(key, enabled)]\<rparr>
      in case w_parent w of
           None \<Rightarrow> (Inl (TypeError ''button.element().parentNode is null''), s1)
         | Some i \<Rightarrow>
             if i < length (toolbar s)
             then (Inr (),
                   s1\<lparr>toolbar :=
                        set_group i
                          ((snd (toolbar s ! i))
                             \<lparr>g_collapsed :=
                                Some (if (if length (g_children (snd (toolbar s ! i))) = 1
                                          then enabled
                                          else visible_children (buttons s1)
                                                 (g_children (snd (toolbar s ! i))) \<noteq> [])
                                      then ''false'' else ''true'')\<rparr>)
                          (toolbar s)\<rparr>)
             else (Inl (TypeError ''button.element().parentNode is null''), s1))"

text \<open>
  \<^verbatim>\<open>update(now)\<close> of the widget registered under \<open>key\<close>; \<open>now\<close> is \<open>True\<close> for the value
  \<^verbatim>\<open>true\<close> only.
\<close>

definition update :: "button_env \<Rightarrow> string \<Rightarrow> bool \<Rightarrow> bstate \<Rightarrow> unit bres" where
  "update env key now s =
     (case buttons s key of
        None \<Rightarrow> (Inl (TypeError ''no widget under this key''), s)
      | Some w \<Rightarrow>
          if now then recompute env key w s
          else (case debounce key w s of
                  (w', s') \<Rightarrow> (Inr (), s'\<lparr>buttons := (buttons s')(key \<mapsto> w')\<rparr>)))"

text \<open>\<^verbatim>\<open>hide\<close> and \<^verbatim>\<open>show\<close> of a widget: the persisted flag and the \<^verbatim>\<open>kohidden\<close> attribute.\<close>

definition hide :: "string \<Rightarrow> bstate \<Rightarrow> unit bres" where
  "hide key s =
     (case buttons s key of
        None \<Rightarrow> (Inl (TypeError ''no widget under this key''), s)
      | Some w \<Rightarrow>
          (case storage s (f_id (w_opts w)) of
             None \<Rightarrow> (Inl (TypeError ''ss.storage.buttons[opts.id] is undefined''), s)
           | Some h \<Rightarrow>
               (Inr (),
                s\<lparr>storage := (storage s)(f_id (w_opts w) \<mapsto> Some True),
                  buttons := (buttons s)(key \<mapsto>
                     w\<lparr>w_attrs := (w_attrs w)(''kohidden'' \<mapsto> AStr ''true'')\<rparr>)\<rparr>)))"

definition show_button :: "string \<Rightarrow> bstate \<Rightarrow> unit bres" where
  "show_button key s =
     (case buttons s key of
        None \<Rightarrow> (Inl (TypeError ''no widget under this key''), s)
      | Some w \<Rightarrow>
          (case storage s (f_id (w_opts w)) of
             None \<Rightarrow> (Inl (TypeError ''ss.storage.buttons[opts.id] is undefined''), s)
           | Some h \<Rightarrow>
               (Inr (),
                s\<lparr>storage := (storage s)(f_id (w_opts w) \<mapsto> Some False),
                  buttons := (buttons s)(key \<mapsto>
                     w\<lparr>w_attrs := (w_attrs w)(''kohidden'' := None)\<rparr>)\<rparr>)))"

subsection \<open>Construction, \<^verbatim>\<open>register\<close> and \<^verbatim>\<open>unregister\<close>\<close>

text \<open>
  Line 124, \<^verbatim>\<open>tb.find("#dynamicBtnGrp-" + opts.group)\<close>: for a name of word characters and
  hyphens the selector is an id selector, and finds the first group item of that name; for
  any other name the platform says what the selector finds, or that it is no selector.
\<close>

definition plain_name :: "string \<Rightarrow> bool" where
  "plain_name g = list_all (\<lambda>c. is_word_char c \<or> c = CHR ''-'') g"

definition index_of :: "string \<Rightarrow> string list \<Rightarrow> nat option" where
  "index_of g names =
     first_some (\<lambda>i. if names ! i = g then Some i else None) [0..<length names]"

definition find_group ::
  "button_env \<Rightarrow> string \<Rightarrow> (string \<times> group_item) list \<Rightarrow> berror + nat option" where
  "find_group env g tb =
     (if plain_name g then Inr (index_of g (map fst tb))
      else (case select_group env g (map fst tb) of
              Inl e \<Rightarrow> Inl e
            | Inr found \<Rightarrow>
                (case found of
                   None \<Rightarrow> Inr None
                 | Some i \<Rightarrow> if i < length tb then Inr (Some i) else Inr None)))"

text \<open>A button appended to, and removed from, the group item at a position.\<close>

definition add_child :: "nat \<Rightarrow> string \<Rightarrow> (string \<times> group_item) list
    \<Rightarrow> (string \<times> group_item) list" where
  "add_child i key tb =
     (if i < length tb
      then tb[i := (fst (tb ! i),
                    (snd (tb ! i))\<lparr>g_children := g_children (snd (tb ! i)) @ [key]\<rparr>)]
      else tb)"

definition remove_child :: "nat \<Rightarrow> string \<Rightarrow> (string \<times> group_item) list
    \<Rightarrow> (string \<times> group_item) list" where
  "remove_child i key tb =
     (if i < length tb
      then tb[i := (fst (tb ! i),
                    (snd (tb ! i))\<lparr>g_children := removeAll key (g_children (snd (tb ! i)))\<rparr>)]
      else tb)"

text \<open>
  \<^verbatim>\<open>new dynamicButton(opts)\<close>, that is \<^verbatim>\<open>init\<close> (lines 76-176), for the widget that \<^verbatim>\<open>register\<close>
  will store under \<open>key\<close>: the group item is looked for, which may raise, and appended
  to the toolbar when none is found; the persisted entry is read under \<^verbatim>\<open>opts.id\<close>, which raises when there is none; the button is
  appended to its group; the observers and listeners are added; and \<^verbatim>\<open>update()\<close> sets the
  first timer.
\<close>

definition new_dynamicButton :: "button_env \<Rightarrow> string \<Rightarrow> full_opts \<Rightarrow> bstate \<Rightarrow> widget bres"
  where
  "new_dynamicButton env key opts s =
     (case find_group env (f_group opts) (toolbar s) of
        Inl e \<Rightarrow> (Inl e, s)
      | Inr found \<Rightarrow>
          (let s1 = (case found of
                       None \<Rightarrow>
                         s\<lparr>toolbar := toolbar s @
                             [(f_group opts,
                               \<lparr>g_ordinal = (if truthy_num (f_groupOrdinal opts)
                                             then f_groupOrdinal opts else None),
                                g_collapsed = None, g_children = []\<rparr>)]\<rparr>
                     | Some i \<Rightarrow> s);
               gi = (case found of None \<Rightarrow> length (toolbar s) | Some i \<Rightarrow> i)
           in case storage s1 (f_id opts) of
                None \<Rightarrow> (Inl (TypeError ''ss.storage.buttons[opts.id] is undefined''), s1)
              | Some hidden \<Rightarrow>
                  (case debounce key
                          \<lparr>w_opts = opts, w_isEnabled = settle_isEnabled env opts,
                           w_attrs = (if hidden = Some True
                                      then (initial_attrs opts)(''kohidden'' \<mapsto> AStr ''true'')
                                      else initial_attrs opts),
                           w_menupopup = (f_menuitems opts \<noteq> None),
                           w_parent = Some gi, w_timer = None\<rparr>
                          (s1\<lparr>toolbar := add_child gi key (toolbar s1),
                              subscriptions := subscriptions s1 @ subscribe key (f_events opts)\<rparr>) of
                     (w, s2) \<Rightarrow> (Inr w, s2))))"

text \<open>The defaults of \<^verbatim>\<open>register\<close> (lines 512-529) with the caller's options laid over them.\<close>

definition extend_defaults :: "string \<Rightarrow> string option \<Rightarrow> button_opts \<Rightarrow> full_opts" where
  "extend_defaults bid label opts =
     \<lparr>f_id = (case o_id opts of None \<Rightarrow> bid | Some i \<Rightarrow> i),
      f_group = (case o_group opts of None \<Rightarrow> bid | Some g \<Rightarrow> g),
      f_label = (case o_label opts of None \<Rightarrow> label | Some l \<Rightarrow> Some l),
      f_tooltip = (case o_tooltip opts of None \<Rightarrow> label | Some t \<Rightarrow> Some t),
      f_isEnabled = o_isEnabled opts,
      f_command = o_command opts,
      f_menuitems = o_menuitems opts,
      f_menuitemsInitialize = o_menuitemsInitialize opts,
      f_icon = (case o_icon opts of
                  None \<Rightarrow> if falsy (o_image opts) then Some ''question4'' else None
                | Some i \<Rightarrow> Some i),
      f_image = o_image opts,
      f_classList = (case o_classList opts of None \<Rightarrow> [] | Some c \<Rightarrow> c),
      f_ordinal = o_ordinal opts,
      f_groupOrdinal = o_groupOrdinal opts,
      f_events = (case o_events opts of
                    None \<Rightarrow> [''current_place_opened'', ''project_opened'', ''workspace_restored'']
                  | Some e \<Rightarrow> e)\<rparr>"

text \<open>
  The two ways of calling \<^verbatim>\<open>register\<close>: with a label and options, or with the options
  alone (\<^verbatim>\<open>typeof label == "object"\<close>).
\<close>

datatype reg_args = Label_opts string button_opts | Spec button_opts

definition reg_opts :: "reg_args \<Rightarrow> button_opts" where
  "reg_opts args = (case args of Label_opts l opts \<Rightarrow> opts | Spec opts \<Rightarrow> opts)"

definition reg_label :: "reg_args \<Rightarrow> string option" where
  "reg_label args =
     (case args of Label_opts l opts \<Rightarrow> Some l | Spec opts \<Rightarrow> js_or (o_label opts) (o_id opts))"

text \<open>
  Line 505: \<^verbatim>\<open>(opts.id || label).replace(/\W+/g, "")\<close>, \<open>None\<close> when there is neither an id
  nor a label to call \<^verbatim>\<open>replace\<close> on.
\<close>

definition button_id :: "reg_args \<Rightarrow> string option" where
  "button_id args = map_option strip_nonword (js_or (o_id (reg_opts args)) (reg_label args))"

definition register :: "button_env \<Rightarrow> reg_args \<Rightarrow> bstate \<Rightarrow> widget bres" where
  "register env args s =
     (case button_id args of
        None \<Rightarrow> (Inl (TypeError ''(opts.id || label) is undefined''), s)
      | Some bid \<Rightarrow>
          if has_key env (buttons s) bid
          then (Inl (Error (''A dynamic button with id '' @ bid @ '' already exists'')), s)
          else
            (case new_dynamicButton env bid (extend_defaults bid (reg_label args) (reg_opts args))
                    (s\<lparr>storage := (case storage s bid of
                                      None \<Rightarrow> (storage s)(bid \<mapsto> None)
                                    | Some h \<Rightarrow> storage s)\<rparr>) of
               (r, s') \<Rightarrow>
                 (case r of
                    Inl e \<Rightarrow> (Inl e, s')
                  | Inr w \<Rightarrow> (Inr w, s'\<lparr>buttons := (buttons s')(bid \<mapsto> w)\<rparr>))))"

text \<open>
  \<^verbatim>\<open>unregister\<close> of a widget (lines 404-407) is \<^verbatim>\<open>button.remove()\<close>: the button leaves its
  group. \<^verbatim>\<open>unregister(id)\<close> of the module (lines 545-553) checks the id and calls it; a name
  the registry only inherits passes the check and has no \<^verbatim>\<open>unregister\<close> to call.
\<close>

definition widget_unregister :: "string \<Rightarrow> widget \<Rightarrow> bstate \<Rightarrow> bstate" where
  "widget_unregister key w s =
     s\<lparr>toolbar := (case w_parent w of
                     None \<Rightarrow> toolbar s
                   | Some i \<Rightarrow> remove_child i key (toolbar s)),
       buttons := (buttons s)(key \<mapsto> w\<lparr>w_parent := None\<rparr>)\<rparr>"

definition unregister :: "button_env \<Rightarrow> string \<Rightarrow> bstate \<Rightarrow> unit bres" where
  "unregister env bid s =
     (if has_key env (buttons s) bid
      then (case buttons s bid of
              None \<Rightarrow> (Inl (TypeError ''buttons[id].unregister is not a function''), s)
            | Some w \<Rightarrow> (Inr (), widget_unregister bid w s))
      else (Inl (Error (''A dynamic button with id '' @ bid @ '' does not exist'')), s))"

subsection \<open>Timers firing\<close>

text \<open>
  A timer that fires calls \<^verbatim>\<open>update(true)\<close> of its widget, at the deadline or later; an
  exception ends the callback and leaves the state as it is then.
\<close>

definition fire :: "button_env \<Rightarrow> bstate \<Rightarrow> nat \<times> nat \<times> string \<Rightarrow> bstate" where
  "fire env s tm = snd (update env (snd (snd tm)) True (s\<lparr>clock := max (clock s) (fst (snd tm))\<rparr>))"

text \<open>
  Time passes up to \<open>t\<close>: the timers due by then fire in the order of their deadlines.
  \<^verbatim>\<open>update(true)\<close> neither sets nor clears a timer, so the due timers are those of the start.
\<close>

definition advance :: "button_env \<Rightarrow> nat \<Rightarrow> bstate \<Rightarrow> bstate" where
  "advance env t s =
     (foldl (fire env)
        (s\<lparr>timers := filter (\<lambda>tm. t < fst (snd tm)) (timers s)\<rparr>)
        (sort_key (\<lambda>tm. fst (snd tm)) (filter (\<lambda>tm. fst (snd tm) \<le> t) (timers s))))
     \<lparr>clock := max (clock s) t\<rparr>"

text \<open>Refresh requests (\<^verbatim>\<open>update()\<close>) on one widget arriving at the times of the list.\<close>

primrec requests :: "button_env \<Rightarrow> string \<Rightarrow> nat list \<Rightarrow> bstate \<Rightarrow> bstate" where
  "requests env key [] s = s"
| "requests env key (t # ts) s =
     requests env key ts (snd (update env key False (advance env t s)))"

text \<open>
  Each request of the list comes before the timer set by the one before it expires: at
  or after the previous time, and less than 250 ms later.
\<close>

primrec within_window :: "nat \<Rightarrow> nat list \<Rightarrow> bool" where
  "within_window t0 [] = True"
| "within_window t0 (t # ts) = (t0 \<le> t \<and> t < t0 + 250 \<and> within_window t ts)"

definition pending :: "string \<Rightarrow> bstate \<Rightarrow> (nat \<times> nat \<times> string) list" where
  "pending key s = filter (\<lambda>tm. snd (snd tm) = key) (timers s)"

text \<open>
  The module at load time (\<^verbatim>\<open>init\<close>, lines 418-432): the storage as persisted, and the
  button \<^verbatim>\<open>Add ..\<close> registered.
\<close>

definition empty_bstate :: "(string \<rightharpoonup> bool option) \<Rightarrow> bstate" where
  "empty_bstate persisted =
     \<lparr>buttons = Map.empty, storage = persisted, toolbar = [], subscriptions = [], timers = [],
      next_timer = 1, clock = 0, recomputed = []\<rparr>"

definition no_opts :: button_opts where
  "no_opts =
     \<lparr>o_id = None, o_label = None, o_tooltip = None, o_classList = None, o_command = None,
      o_icon = None, o_image = None, o_ordinal = None, o_menuitems = None,
      o_menuitemsInitialize = None, o_group = None, o_groupOrdinal = None, o_isEnabled = None,
      o_events = None\<rparr>"

definition module_init :: "button_env \<Rightarrow> (string \<rightharpoonup> bool option) \<Rightarrow> widget bres" where
  "module_init env persisted =
     register env
       (Label_opts ''Add ..''
          (no_opts\<lparr>o_events := Some [], o_ordinal := Some 0, o_group := Some ''add'',
                   o_groupOrdinal := Some 0, o_icon := Some ''plus'', o_isEnabled := Some 0,
                   o_menuitems := Some 0\<rparr>))
       (empty_bstate persisted)"

text \<open>A platform for running the module: predicate 0 is \<^verbatim>\<open>() => true\<close>, the others hold
  at even milliseconds; a group name that is no plain name is no selector.\<close>

definition plain_benv :: button_env where
  "plain_benv =
     \<lparr>proto_keys = [''constructor'', ''toString'', ''valueOf'', ''hasOwnProperty''],
      select_group = (\<lambda>g names. Inl (SyntaxError ''An invalid or illegal string was specified'')),
      controller_for = (\<lambda>c. False),
      isCommandEnabled = (\<lambda>c t. False),
      predicate = (\<lambda>p t. p = 0 \<or> even t)\<rparr>"

text \<open>The state after the module was loaded with nothing persisted.\<close>

definition loaded :: bstate where
  "loaded = snd (module_init plain_benv Map.empty)"


section \<open>Notions used to state and prove the properties\<close>

text \<open>
  A statement adds only events of a kind, and leaves the one-shot flag alone: every run
  appends to the record of requests events that all satisfy \<open>P\<close>, and ends with
  \<^verbatim>\<open>skipNextPrompt\<close> as it found it.
\<close>

definition adds_only :: "(event \<Rightarrow> bool) \<Rightarrow> 'a act \<Rightarrow> bool" where
  "adds_only P m =
     (\<forall>s. skipNextPrompt (snd (m s)) = skipNextPrompt s \<and>
          (\<exists>evs. trace (snd (m s)) = trace s @ evs \<and> list_all P evs))"

text \<open>An event that is no entry into \<^verbatim>\<open>URIAtLine\<close>, no callback and no request to open.\<close>

definition calm :: "event \<Rightarrow> bool" where
  "calm ev = (\<not> is_enter ev \<and> \<not> is_callback ev \<and> \<not> is_open_request ev)"

text \<open>
  The two shapes of a run of the dispatch from \<open>s\<close> to the result \<open>r\<close>: calm events
  only, the flag untouched; or calm events and then the one request to the view manager,
  whose outcome is the result.
\<close>

definition run_shape ::
  "collab \<Rightarrow> callback option \<Rightarrow> ostate \<Rightarrow> (exn + unit) \<times> ostate \<Rightarrow> bool" where
  "run_shape env cb s r =
     (\<exists>evs. list_all calm evs \<and>
        ((trace (snd r) = trace s @ evs \<and> skipNextPrompt (snd r) = skipNextPrompt s) \<or>
         (\<exists>p l vt. trace (snd r) = trace s @ evs @ [open_request p l vt cb] \<and>
            fst r = outcome (open_outcome env p l vt))))"


text \<open>
  The entry into \<^verbatim>\<open>URIAtLine\<close> that one round of the loop of \<^verbatim>\<open>multipleURIs\<close> makes for the
  url \<open>u\<close>, through \<^verbatim>\<open>recentURI\<close> or through \<^verbatim>\<open>URI\<close>.
\<close>

definition single_open_entry :: "bool \<Rightarrow> string option \<Rightarrow> string \<Rightarrow> event" where
  "single_open_entry isRecent viewType u =
     (if isRecent
      then Enter_URIAtLine u None (if falsy viewType then Some ''editor'' else viewType) True
             (Some (PruneFileMRU u))
      else Enter_URIAtLine u None viewType True None)"

text \<open>
  Collaborators whose \<^verbatim>\<open>pathToURI\<close> raises, whose view manager raises, and whose user
  answers Cancel.
\<close>

definition failing_env :: collab where
  "failing_env = plain_env\<lparr>pathToURI := (\<lambda>u. Inl ''pathToURI failed'')\<rparr>"

definition refusing_env :: collab where
  "refusing_env = plain_env\<lparr>doFileOpenAsync := (\<lambda>u v. Some ''doFileOpenAsync failed'')\<rparr>"

definition cancel_env :: collab where
  "cancel_env = plain_env\<lparr>yesNoCancel := (\<lambda>p. ''Cancel'')\<rparr>"

text \<open>
  Whether a widget is registered under a key, and the timer id it holds in
  \<^verbatim>\<open>this.update._timer\<close>.
\<close>

definition registered :: "bstate \<Rightarrow> string \<Rightarrow> bool" where
  "registered s key = (case buttons s key of None \<Rightarrow> False | Some w \<Rightarrow> True)"

definition held_timer :: "bstate \<Rightarrow> string \<Rightarrow> nat option" where
  "held_timer s key = (case buttons s key of None \<Rightarrow> None | Some w \<Rightarrow> w_timer w)"

text \<open>
  What there is to see of the enablement of the widget under a key: the answer its
  predicate gives at a time, its \<^verbatim>\<open>disabled\<close> attribute, the recomputations recorded for it,
  and the \<^verbatim>\<open>collapsed\<close> attribute of the group item it sits in.
\<close>

definition answer_at :: "button_env \<Rightarrow> bstate \<Rightarrow> string \<Rightarrow> nat \<Rightarrow> bool" where
  "answer_at env s key t =
     (case buttons s key of
        None \<Rightarrow> False
      | Some w \<Rightarrow>
          (case w_isEnabled w of
             UserPredicate p \<Rightarrow> predicate env p t
           | CommandEnabled c \<Rightarrow> isCommandEnabled env c t
           | NeverEnabled \<Rightarrow> False))"

definition disabled_attr :: "bstate \<Rightarrow> string \<Rightarrow> attr_value option" where
  "disabled_attr s key = (case buttons s key of None \<Rightarrow> None | Some w \<Rightarrow> w_attrs w ''disabled'')"

definition recomputed_for :: "string \<Rightarrow> bstate \<Rightarrow> (string \<times> bool) list" where
  "recomputed_for key s = filter (\<lambda>r. fst r = key) (recomputed s)"

definition collapsed_attr :: "bstate \<Rightarrow> string \<Rightarrow> string option" where
  "collapsed_attr s key =
     (case buttons s key of
        None \<Rightarrow> None
      | Some w \<Rightarrow>
          (case w_parent w of
             None \<Rightarrow> None
           | Some i \<Rightarrow> if i < length (toolbar s) then g_collapsed (snd (toolbar s ! i)) else None))"

text \<open>
  The children of the group item that the button under a key sits in, and whether the
  button is its only child.
\<close>

definition group_children :: "bstate \<Rightarrow> string \<Rightarrow> string list option" where
  "group_children s key =
     (case buttons s key of
        None \<Rightarrow> None
      | Some w \<Rightarrow>
          (case w_parent w of
             None \<Rightarrow> None
           | Some i \<Rightarrow> if i < length (toolbar s) then Some (g_children (snd (toolbar s ! i)))
                       else None))"

definition only_child :: "bstate \<Rightarrow> string \<Rightarrow> bool" where
  "only_child s key =
     (case buttons s key of
        None \<Rightarrow> False
      | Some w \<Rightarrow>
          (case w_parent w of
             None \<Rightarrow> False
           | Some i \<Rightarrow> i < length (toolbar s) \<and> length (g_children (snd (toolbar s ! i))) = 1))"

text \<open>
  The state of the widget \<open>w\<close> under a key between a request made at time \<open>t0\<close> and the
  expiry of its timer: the widget is as it was but for the timer it holds, and that timer
  is the one pending for it.
\<close>

definition one_pending :: "string \<Rightarrow> widget \<Rightarrow> bstate \<Rightarrow> nat \<Rightarrow> bool" where
  "one_pending key w s t0 =
     (\<exists>n. buttons s key = Some (w\<lparr>w_timer := Some n\<rparr>) \<and>
        pending key s = [(n, t0 + 250, key)] \<and> clock s = t0)"


section \<open>Lemmas: the regular expressions\<close>

lemma first_some_rev_upt:
  assumes "f n = Some v" "n \<le> m" "\<And>j. n < j \<Longrightarrow> j \<le> m \<Longrightarrow> f j = None"
  shows "first_some f (rev [0..<Suc m]) = Some v"
  using assms
proof (induction m)
  case 0
  then show ?case by simp
next
  case (Suc m)
  show ?case
  proof (cases "n = Suc m")
    case True
    with Suc.prems show ?thesis by simp
  next
    case False
    with Suc.prems have "n \<le> m" by simp
    moreover have "f (Suc m) = None" using Suc.prems False by simp
    ultimately show ?thesis using Suc by simp
  qed
qed

lemma match_sep_digits_digit: "is_digit c \<Longrightarrow> match_sep_digits (c # t) = None"
  by (auto simp: match_sep_digits_def is_digit_def)

lemma match_sep_digits_Nil: "match_sep_digits [] = None"
  by (simp add: match_sep_digits_def all_digits_def)

lemma match_sep_digits_sep:
  "sep \<in> {''#'', ''%23'', '':'', ''%3A''} \<Longrightarrow> all_digits N \<Longrightarrow> match_sep_digits (sep @ N) = Some N"
  by (auto simp: match_sep_digits_def)

lemma all_digits_drop:
  "all_digits N \<Longrightarrow> k < length N \<Longrightarrow> \<exists>c t. drop k N = c # t \<and> is_digit c"
  by (metis Cons_nth_drop_Suc all_digits_def list_all_length)

lemma proper_suffix_no_match:
  assumes "sep \<in> {''#'', ''%23'', '':'', ''%3A''}" "all_digits N" "0 < k"
  shows "match_sep_digits (drop k (sep @ N)) = None"
proof (cases "k < length sep")
  case True
  then consider "sep = ''%23''" "k = 1" | "sep = ''%23''" "k = 2" | "sep = ''%3A''" "k = 1" | "sep = ''%3A''" "k = 2"
    using assms by (auto simp: less_Suc_eq numeral_3_eq_3)
  then show ?thesis
  proof cases
    case 1 then show ?thesis by (simp add: match_sep_digits_digit is_digit_def)
  next
    case 2 then show ?thesis by (simp add: numeral_2_eq_2 match_sep_digits_digit is_digit_def)
  next
    case 3 then show ?thesis by (simp add: match_sep_digits_digit is_digit_def)
  next
    case 4 then show ?thesis using assms(2) by (cases N) (auto simp add: numeral_2_eq_2 match_sep_digits_def all_digits_def)
  qed
next
  case False
  then have d: "drop k (sep @ N) = drop (k - length sep) N" by simp
  show ?thesis
  proof (cases "k - length sep < length N")
    case True
    then show ?thesis using all_digits_drop[OF assms(2) True] d by (auto simp: match_sep_digits_digit)
  next
    case False
    then show ?thesis using d by (simp add: match_sep_digits_Nil)
  qed
qed

lemma fileLineNoRE_exec_suffix:
  assumes "sep \<in> {''#'', ''%23'', '':'', ''%3A''}" "all_digits N" "\<not> list_ex is_line_terminator p"
  shows "fileLineNoRE_exec (p @ sep @ N) = Some (p, N)"
  unfolding fileLineNoRE_exec_def
proof (rule first_some_rev_upt[where n = "length p"])
  show "fileLineNoRE_at (p @ sep @ N) (length p) = Some (p, N)"
    using assms by (simp add: fileLineNoRE_at_def match_sep_digits_sep)
  show "length p \<le> length (p @ sep @ N)" by simp
  fix j assume "length p < j" "j \<le> length (p @ sep @ N)"
  then have "drop j (p @ sep @ N) = drop (j - length p) (sep @ N)" by simp
  then show "fileLineNoRE_at (p @ sep @ N) j = None"
    using proper_suffix_no_match[OF assms(1,2), of "j - length p"] \<open>length p < j\<close>
    by (simp add: fileLineNoRE_at_def)
qed
section \<open>Lemmas: extensions exclude one another\<close>

lemma ends_with_ci_suffix:
  assumes "ends_with_ci a s" "ends_with_ci b s" "length a \<le> length b"
  shows "a = drop (length b - length a) b"
proof -
  have "drop (length b - length a) b
        = map lower_char (drop (length b - length a) (drop (length s - length b) s))"
    using assms(2) by (metis drop_map ends_with_ci_def)
  also have "\<dots> = map lower_char (drop (length s - length a) s)"
    using assms by (simp add: ends_with_ci_def)
  finally show ?thesis using assms(1) by (simp add: ends_with_ci_def)
qed

lemma first_some_SomeD: "first_some f xs = Some y \<Longrightarrow> \<exists>x\<in>set xs. f x = Some y"
  by (induction xs) (auto split: option.splits)

lemma lastIndexOf_SomeD: "lastIndexOf c s = Some i \<Longrightarrow> i < length s \<and> s ! i = c"
  by (auto simp: lastIndexOf_def dest!: first_some_SomeD split: if_splits)

lemma ends_with_ci_exact:
  assumes "drop i s = t" "i \<le> length s" "map lower_char t = t"
  shows "ends_with_ci t s"
  using assms by (auto simp: ends_with_ci_def)

lemma loadSqliteDatabase_ext:
  assumes "loadSqliteDatabase env p s \<noteq> (Inr False, s)"
  shows "ends_with_ci ''.db'' p \<or> ends_with_ci ''.sqlite'' p \<or> ends_with_ci ''.sqlite3'' p"
proof -
  from assms obtain i where i: "lastIndexOf CHR ''.'' p = Some i"
    and e: "drop (Suc i) p \<in> {''db'', ''sqlite'', ''sqlite3''}"
    by (auto simp: loadSqliteDatabase_def ret_def split: option.splits if_splits)
  from lastIndexOf_SomeD[OF i] have "drop i p = CHR ''.'' # drop (Suc i) p" and "i \<le> length p"
    using Cons_nth_drop_Suc[of i p] by auto
  with e show ?thesis
    by (auto intro!: ends_with_ci_exact[of i] simp: lower_char_def)
qed

lemma media_not_special:
  assumes "isImageUrl p \<or> isAudioUrl p"
  shows "\<not> ends_with_ci ''.kpf'' p" "\<not> ends_with_ci ''.komodoproject'' p"
    "\<not> ends_with_ci ''.xpi'' p" "\<not> ends_with_ci ''.kpz'' p"
    "\<not> ends_with_ci ''.db'' p" "\<not> ends_with_ci ''.sqlite'' p" "\<not> ends_with_ci ''.sqlite3'' p"
    "\<not> ends_with_ci ''.ksf'' p" "\<not> ends_with_ci ''.sublime-snippet'' p"
    "\<not> ends_with_ci ''.komodotool'' p" "\<not> ends_with_ci ''.ktf'' p"
  using assms
  by (auto simp: isImageUrl_def isAudioUrl_def imageUrlREs_def audioUrlREs_def
      split: if_splits dest: ends_with_ci_suffix)

lemma ksf_not_special:
  assumes "ends_with_ci ''.ksf'' p"
  shows "\<not> ends_with_ci ''.kpf'' p" "\<not> ends_with_ci ''.komodoproject'' p"
    "\<not> ends_with_ci ''.xpi'' p" "\<not> ends_with_ci ''.kpz'' p"
    "\<not> ends_with_ci ''.db'' p" "\<not> ends_with_ci ''.sqlite'' p" "\<not> ends_with_ci ''.sqlite3'' p"
  using assms by (auto dest: ends_with_ci_suffix)

section \<open>Lemmas: what the branches of the dispatch add to the record\<close>

lemma adds_onlyD:
  "adds_only P m \<Longrightarrow> \<exists>evs. trace (snd (m s)) = trace s @ evs \<and> list_all P evs"
  by (simp add: adds_only_def)

lemma adds_only_flag: "adds_only P m \<Longrightarrow> skipNextPrompt (snd (m s)) = skipNextPrompt s"
  by (simp add: adds_only_def)

lemma adds_only_ret: "adds_only P (ret x)"
  by (simp add: adds_only_def ret_def)

lemma adds_only_query: "adds_only P (query r)"
  by (simp add: adds_only_def query_def)

lemma adds_only_emit: "P ev \<Longrightarrow> adds_only P (emit ev)"
  by (simp add: adds_only_def emit_def)

lemma adds_only_request: "P ev \<Longrightarrow> adds_only P (request ev r)"
  by (simp add: adds_only_def request_def)

lemma adds_only_bnd:
  assumes "adds_only P m" "\<And>x. adds_only P (f x)"
  shows "adds_only P (bnd m f)"
  unfolding adds_only_def
proof
  fix s
  obtain r s' where ms: "m s = (r, s')" by (cases "m s")
  from adds_onlyD[OF assms(1), of s] ms obtain evs where
    e1: "trace s' = trace s @ evs" "list_all P evs" by auto
  from adds_only_flag[OF assms(1), of s] ms have f1: "skipNextPrompt s' = skipNextPrompt s"
    by simp
  show "skipNextPrompt (snd (bnd m f s)) = skipNextPrompt s \<and>
        (\<exists>evs. trace (snd (bnd m f s)) = trace s @ evs \<and> list_all P evs)"
  proof (cases r)
    case (Inl e)
    then show ?thesis using ms e1 f1 by (simp add: bnd_def)
  next
    case (Inr x)
    from adds_onlyD[OF assms(2), of x s'] obtain evs' where
      "trace (snd (f x s')) = trace s' @ evs'" "list_all P evs'" by auto
    then show ?thesis using ms e1 f1 Inr adds_only_flag[OF assms(2), of x s']
      by (simp add: bnd_def)
  qed
qed

lemma adds_only_try_catch:
  assumes "adds_only P m" "\<And>e. adds_only P (h e)"
  shows "adds_only P (try_catch m h)"
  unfolding adds_only_def
proof
  fix s
  obtain r s' where ms: "m s = (r, s')" by (cases "m s")
  from adds_onlyD[OF assms(1), of s] ms obtain evs where
    e1: "trace s' = trace s @ evs" "list_all P evs" by auto
  from adds_only_flag[OF assms(1), of s] ms have f1: "skipNextPrompt s' = skipNextPrompt s"
    by simp
  show "skipNextPrompt (snd (try_catch m h s)) = skipNextPrompt s \<and>
        (\<exists>evs. trace (snd (try_catch m h s)) = trace s @ evs \<and> list_all P evs)"
  proof (cases r)
    case (Inr x)
    then show ?thesis using ms e1 f1 by (simp add: try_catch_def)
  next
    case (Inl e)
    from adds_onlyD[OF assms(2), of e s'] obtain evs' where
      "trace (snd (h e s')) = trace s' @ evs'" "list_all P evs'" by auto
    then show ?thesis using ms e1 f1 Inl adds_only_flag[OF assms(2), of e s']
      by (simp add: try_catch_def)
  qed
qed

lemma adds_only_if:
  "adds_only P a \<Longrightarrow> adds_only P b \<Longrightarrow> adds_only P (if c then a else b)"
  by simp

lemma checkKSF_loop_prompts:
  "checkKSF_loop env ext nm answers = (r, rest, evs) \<Longrightarrow> list_all is_prompt evs"
proof (induction answers arbitrary: nm r rest evs)
  case Nil
  then show ?case by (auto simp: is_prompt_def split: option.splits)
next
  case (Cons a answers)
  then show ?case
    by (auto simp: is_prompt_def split: option.splits if_splits prod.splits)
qed

lemma adds_only_checkKSFBaseName:
  assumes "\<And>ev. is_prompt ev \<Longrightarrow> P ev"
  shows "adds_only P (checkKSFBaseName env uri)"
  unfolding checkKSFBaseName_def
proof (intro adds_only_bnd adds_only_query)
  fix bn ext
  show "adds_only P (\<lambda>s. case checkKSF_loop env ext
                   (take (case lastIndexOf_str ext bn of None \<Rightarrow> 0 | Some i \<Rightarrow> i) bn)
                   (prompt_answers s) of
               (r, rest, evs) \<Rightarrow> (Inr r, s\<lparr>prompt_answers := rest, trace := trace s @ evs\<rparr>))"
    unfolding adds_only_def
    using checkKSF_loop_prompts assms
    by (auto split: prod.splits simp: list_all_iff) 
qed

lemma adds_only_notify:
  assumes "P RemoveAllNotifications" "\<And>e. P (Log_exception e)" "\<And>a b. P (AppendNotification a b)"
  shows "adds_only P (notifyHowtoRestoreOldScheme env old new)"
  unfolding adds_only_def notifyHowtoRestoreOldScheme_def
  using assms by (auto simp: Let_def split: option.splits)

lemma calm_simps [simp]:
  "calm (Projects_open u k)" "calm (InstallPackageByUrl u)" "calm (Dialogs_alert m)"
  "calm (ImportPackage u)" "calm (AddSqliteDatabaseFromURI u)" "calm (CustomButtons p b t)"
  "calm (Dialogs_prompt p l d)" "calm (LoadSchemeFromURI u n)" "calm (ActivateScheme n)"
  "calm RemoveAllNotifications" "calm (AppendNotification a c)" "calm (Window_alert e)"
  "calm (ImportSublimeSnippet u)" "calm (ImportFilesFromFileSystem u)" "calm (Log_exception e)"
  by (simp_all add: calm_def is_enter_def is_callback_def is_open_request_def)

lemma is_prompt_calm: "is_prompt ev \<Longrightarrow> calm ev"
  by (cases ev) (simp_all add: is_prompt_def calm_def is_enter_def is_callback_def is_open_request_def)

lemma adds_only_open_ksf: "adds_only calm (open_ksf env uri btns responses vt)"
  unfolding open_ksf_def
  by (intro adds_only_bnd adds_only_query adds_only_request adds_only_if adds_only_ret
        adds_only_try_catch adds_only_emit adds_only_checkKSFBaseName adds_only_notify
        is_prompt_calm calm_simps)
     (auto split: option.splits intro!: adds_only_ret adds_only_try_catch adds_only_bnd
        adds_only_request adds_only_notify adds_only_emit)

lemma adds_only_open_sublime_snippet:
  "adds_only calm (open_sublime_snippet env uri btns responses vt)"
  unfolding open_sublime_snippet_def
  by (intro adds_only_bnd adds_only_query adds_only_request adds_only_if adds_only_ret calm_simps)

lemma adds_only_open_komodo_tool:
  "adds_only calm (open_komodo_tool env uri btns responses vt)"
  unfolding open_komodo_tool_def
  by (intro adds_only_bnd adds_only_query adds_only_request adds_only_if adds_only_ret calm_simps)

lemma adds_only_prompt_phase: "adds_only calm (prompt_phase env uri btns responses vt)"
  using adds_only_open_ksf[of env uri btns responses vt]
    adds_only_open_sublime_snippet[of env uri btns responses vt]
    adds_only_open_komodo_tool[of env uri btns responses vt]
  unfolding adds_only_def prompt_phase_def by auto

lemma adds_only_loadSqliteDatabase: "adds_only calm (loadSqliteDatabase env uri)"
  unfolding loadSqliteDatabase_def
  by (auto split: option.splits intro!: adds_only_ret adds_only_request)

section \<open>Lemmas: the default branch\<close>

lemma adds_only_dispatch_special:
  "adds_only calm (request (Projects_open uri k) r)"
  "adds_only calm (try_catch (installAddon env uri) (\<lambda>ex. request (Dialogs_alert (f ex)) (r' ex)))"
  "adds_only calm (request (ImportPackage uri) r'')"
  by (auto simp: installAddon_def intro!: adds_only_request adds_only_try_catch)

lemma open_in_view_manager_eq:
  "open_in_view_manager env p l vt cb s =
     (outcome (open_outcome env p l vt),
      s\<lparr>skipNextPrompt := False, trace := trace s @ [open_request p l vt cb]\<rparr>)"
  by (simp add: open_in_view_manager_def open_request_def open_outcome_def request_def
      split: option.splits)

lemma loadSqliteDatabase_False:
  assumes "\<not> ends_with_ci ''.db'' p" "\<not> ends_with_ci ''.sqlite'' p" "\<not> ends_with_ci ''.sqlite3'' p"
  shows "loadSqliteDatabase env p s = (Inr False, s)"
  using loadSqliteDatabase_ext[of env p s] assms by blast

lemma dispatch_default:
  assumes "\<not> ends_with_ci ''.kpf'' p" "\<not> ends_with_ci ''.komodoproject'' p"
    "\<not> ends_with_ci ''.xpi'' p" "\<not> ends_with_ci ''.kpz'' p"
    "\<not> ends_with_ci ''.db'' p" "\<not> ends_with_ci ''.sqlite'' p" "\<not> ends_with_ci ''.sqlite3'' p"
  shows "dispatch env p l vt k cb s = open_document env p l vt cb s"
  using assms by (simp add: dispatch_def bnd_def loadSqliteDatabase_False)

lemma URIAtLine_unfold:
  assumes "pathToURI env uri = Inr u"
  shows "URIAtLine env uri l vt k cb s =
     try_catch (dispatch env (fst (split_lineno u l)) (snd (split_lineno u l)) vt k cb)
       (\<lambda>e. emit (Log_exception e)) (s\<lparr>trace := trace s @ [Enter_URIAtLine uri l vt k cb]\<rparr>)"
  using assms by (simp add: URIAtLine_def URIAtLine_try_def bnd_def emit_def query_def try_catch_def)

lemma finish_open:
  "try_catch (\<lambda>s. open_in_view_manager env p l vt cb s) (\<lambda>e. emit (Log_exception e)) s =
    (Inr (), s\<lparr>skipNextPrompt := False,
               trace := trace s @ open_request p l vt cb #
                 (case open_outcome env p l vt of None \<Rightarrow> [] | Some e \<Rightarrow> [Log_exception e])\<rparr>)"
  by (simp add: try_catch_def open_in_view_manager_eq outcome_def emit_def split: option.splits)

lemma try_catch_at: "m s = m' s \<Longrightarrow> try_catch m h s = try_catch m' h s"
  by (simp add: try_catch_def)

lemma open_document_skip:
  "skipNextPrompt s \<Longrightarrow> open_document env p l vt cb s = open_in_view_manager env p l vt cb s"
  by (simp add: open_document_def bnd_def prompt_phase_def)

lemma open_document_media:
  assumes "\<not> skipNextPrompt s" "falsy vt" "isImageUrl p \<or> isAudioUrl p"
  shows "open_document env p l vt cb s = open_in_view_manager env p l (Some ''browser'') cb s"
  using assms media_not_special(8-11)[OF assms(3)]
  by (simp add: open_document_def bnd_def prompt_phase_def)

lemma is_prompt_simps:
  "\<not> is_prompt (Enter_URIAtLine a b c d e)" "\<not> is_prompt (Log_exception x)"
  by (simp_all add: is_prompt_def)

lemma open_request_not_prompt: "\<not> is_prompt (open_request p l vt cb)"
  by (simp add: open_request_def is_prompt_def split: option.splits)

section \<open>Lemmas: the shape of a run of the dispatch\<close>

lemma run_shape_calm:
  assumes "adds_only calm m"
  shows "run_shape env cb s (m s)"
  using adds_onlyD[OF assms, of s] adds_only_flag[OF assms, of s]
  unfolding run_shape_def by blast

lemma open_document_shape: "run_shape env cb s (open_document env p l vt cb s)"
proof -
  let ?b = "[GetStringFromName env ''OK.customButtonLabel'',
             GetStringFromName env ''openAsText.customButtonLabel'',
             GetStringFromName env ''Cancel.customButtonLabel'']"
  let ?pp = "prompt_phase env p ?b (removeAmpersands ?b) vt"
  obtain r s' where pp: "?pp s = (r, s')" by (cases "?pp s")
  from adds_onlyD[OF adds_only_prompt_phase, of env p ?b "removeAmpersands ?b" vt s] pp
  obtain evs where evs: "trace s' = trace s @ evs" "list_all calm evs" by auto
  from adds_only_flag[OF adds_only_prompt_phase, of env p ?b "removeAmpersands ?b" vt s] pp
  have fl: "skipNextPrompt s' = skipNextPrompt s" by simp
  show ?thesis
  proof (cases r)
    case (Inl e)
    then have "open_document env p l vt cb s = (Inl e, s')"
      using pp by (simp add: open_document_def bnd_def)
    then show ?thesis using evs fl unfolding run_shape_def by auto
  next
    case (Inr fl')
    show ?thesis
    proof (cases fl')
      case Return_null
      then have "open_document env p l vt cb s = (Inr (), s')"
        using pp Inr by (simp add: open_document_def bnd_def ret_def)
      then show ?thesis using evs fl unfolding run_shape_def by auto
    next
      case (Fall_through vt')
      then have "open_document env p l vt cb s = open_in_view_manager env p l vt' cb s'"
        using pp Inr by (simp add: open_document_def bnd_def)
      then show ?thesis using evs unfolding run_shape_def open_in_view_manager_eq
        by (intro exI[of _ evs]) auto
    qed
  qed
qed

lemma dispatch_shape: "run_shape env cb s (dispatch env p l vt k cb s)"
proof -
  consider (proj) "ends_with_ci ''.kpf'' p \<or> ends_with_ci ''.komodoproject'' p"
    | (xpi) "\<not> (ends_with_ci ''.kpf'' p \<or> ends_with_ci ''.komodoproject'' p)" "ends_with_ci ''.xpi'' p"
    | (kpz) "\<not> (ends_with_ci ''.kpf'' p \<or> ends_with_ci ''.komodoproject'' p)" "\<not> ends_with_ci ''.xpi'' p"
        "ends_with_ci ''.kpz'' p"
    | (other) "\<not> (ends_with_ci ''.kpf'' p \<or> ends_with_ci ''.komodoproject'' p)" "\<not> ends_with_ci ''.xpi'' p"
        "\<not> ends_with_ci ''.kpz'' p"
    by blast
  then show ?thesis
  proof cases
    case proj
    then show ?thesis
      by (simp add: dispatch_def run_shape_calm[OF adds_only_dispatch_special(1)])
  next
    case xpi
    then show ?thesis
      by (simp add: dispatch_def run_shape_calm[OF adds_only_dispatch_special(2)])
  next
    case kpz
    then show ?thesis
      by (simp add: dispatch_def run_shape_calm[OF adds_only_dispatch_special(3)])
  next
    case other
    obtain r s' where ld: "loadSqliteDatabase env p s = (r, s')"
      by (cases "loadSqliteDatabase env p s")
    from adds_onlyD[OF adds_only_loadSqliteDatabase, of env p s] ld
    obtain evs where evs: "trace s' = trace s @ evs" "list_all calm evs" by auto
    from adds_only_flag[OF adds_only_loadSqliteDatabase, of env p s] ld
    have fl: "skipNextPrompt s' = skipNextPrompt s" by simp
    have d: "dispatch env p l vt k cb s =
        (case r of Inl e \<Rightarrow> (Inl e, s')
         | Inr handled \<Rightarrow> if handled then (Inr (), s') else open_document env p l vt cb s')"
      using other ld by (simp add: dispatch_def bnd_def ret_def split: sum.splits)
    show ?thesis
    proof (cases "r = Inr False")
      case False
      then have "snd (dispatch env p l vt k cb s) = s'"
        using d by (auto split: sum.splits)
      then show ?thesis using evs fl unfolding run_shape_def by auto
    next
      case True
      then have d': "dispatch env p l vt k cb s = open_document env p l vt cb s'"
        using d by simp
      from open_document_shape[of env cb s' p l vt] obtain evs' where
        e': "list_all calm evs'"
        "(trace (snd (open_document env p l vt cb s')) = trace s' @ evs' \<and>
          skipNextPrompt (snd (open_document env p l vt cb s')) = skipNextPrompt s') \<or>
         (\<exists>p' l' vt'. trace (snd (open_document env p l vt cb s')) = trace s' @ evs' @ [open_request p' l' vt' cb] \<and>
            fst (open_document env p l vt cb s') = outcome (open_outcome env p' l' vt'))"
        unfolding run_shape_def by blast
      show ?thesis unfolding run_shape_def d'
        using e' evs fl by (intro exI[of _ "evs @ evs'"]) auto
    qed
  qed
qed

section \<open>Lemmas: the record of a run of \<^verbatim>\<open>URIAtLine\<close>\<close>

lemma try_shape: "run_shape env cb s (URIAtLine_try env uri l vt k cb s)"
proof (cases "pathToURI env uri")
  case (Inl e)
  then have "URIAtLine_try env uri l vt k cb s = (Inl e, s)"
    by (simp add: URIAtLine_try_def bnd_def query_def)
  then show ?thesis unfolding run_shape_def by (intro exI[of _ "[]"]) simp
next
  case (Inr u)
  then have "URIAtLine_try env uri l vt k cb s =
      dispatch env (fst (split_lineno u l)) (snd (split_lineno u l)) vt k cb s"
    by (simp add: URIAtLine_try_def bnd_def query_def)
  then show ?thesis using dispatch_shape by simp
qed

lemma URIAtLine_eq:
  "URIAtLine env uri l vt k cb s =
     (case URIAtLine_try env uri l vt k cb (s\<lparr>trace := trace s @ [Enter_URIAtLine uri l vt k cb]\<rparr>) of
        (r, s') \<Rightarrow> (case r of Inl e \<Rightarrow> (Inr (), s'\<lparr>trace := trace s' @ [Log_exception e]\<rparr>)
                   | Inr x \<Rightarrow> (Inr (), s')))"
  by (simp add: URIAtLine_def bnd_def emit_def try_catch_def split: prod.splits sum.splits)

lemma URIAtLine_returns: "fst (URIAtLine env uri l vt k cb s) = Inr ()"
  by (simp add: URIAtLine_eq split: prod.splits sum.splits)

lemma kind_simps:
  "\<not> is_callback (Enter_URIAtLine a b c d e)" "\<not> is_callback (Log_exception x)"
  "\<not> is_callback (open_request p l vt cb)"
  "\<not> is_open_request (Enter_URIAtLine a b c d e)" "\<not> is_open_request (Log_exception x)"
  "is_open_request (open_request p l vt cb)"
  "is_enter (Enter_URIAtLine a b c d e)" "\<not> is_enter (Log_exception x)"
  "\<not> is_enter (open_request p l vt cb)"
  "\<not> is_enter (Mru_removeURL m u)" "\<not> is_enter RebuildView" "\<not> is_enter (YesNoCancel q)"
  "\<not> is_enter (AddEventListener n)"
  by (simp_all add: is_callback_def is_open_request_def is_enter_def open_request_def
      split: option.splits)

lemma calm_list:
  assumes "list_all calm evs"
  shows "filter is_enter evs = []" "filter is_callback evs = []" "filter is_open_request evs = []"
    "\<not> list_ex is_callback evs" "\<not> list_ex is_open_request evs"
  using assms by (auto simp: calm_def list_all_iff list_ex_iff filter_empty_conv)

lemma URIAtLine_trace:
  obtains evs tl where "list_all calm evs"
    "trace (snd (URIAtLine env uri l vt k cb s)) = trace s @ Enter_URIAtLine uri l vt k cb # evs @ tl"
    "tl = [] \<or> (\<exists>e. tl = [Log_exception e]) \<or> (\<exists>p' l' vt'. tl = [open_request p' l' vt' cb])
      \<or> (\<exists>p' l' vt' e. tl = [open_request p' l' vt' cb, Log_exception e])"
proof -
  let ?s1 = "s\<lparr>trace := trace s @ [Enter_URIAtLine uri l vt k cb]\<rparr>"
  obtain r s' where t: "URIAtLine_try env uri l vt k cb ?s1 = (r, s')"
    by (cases "URIAtLine_try env uri l vt k cb ?s1")
  from try_shape[of env cb ?s1 uri l vt k] t obtain evs where
    c: "list_all calm evs" and
    d: "trace s' = trace ?s1 @ evs \<or> (\<exists>p l vt. trace s' = trace ?s1 @ evs @ [open_request p l vt cb])"
    unfolding run_shape_def by auto
  have u: "trace (snd (URIAtLine env uri l vt k cb s)) =
      trace s' @ (case r of Inl e \<Rightarrow> [Log_exception e] | Inr x \<Rightarrow> [])"
    using t by (simp add: URIAtLine_eq split: sum.splits)
  from d show ?thesis
  proof
    assume "trace s' = trace ?s1 @ evs"
    then show ?thesis using c u
      by (intro that[of evs "case r of Inl e \<Rightarrow> [Log_exception e] | Inr x \<Rightarrow> []"])
         (auto split: sum.splits)
  next
    assume "\<exists>p l vt. trace s' = trace ?s1 @ evs @ [open_request p l vt cb]"
    then obtain p' l' vt' where "trace s' = trace ?s1 @ evs @ [open_request p' l' vt' cb]" by blast
    then show ?thesis using c u
      by (intro that[of evs "open_request p' l' vt' cb # (case r of Inl e \<Rightarrow> [Log_exception e] | Inr x \<Rightarrow> [])"])
         (auto split: sum.splits)
  qed
qed

lemma URIAtLine_enters:
  "filter is_enter (trace (snd (URIAtLine env uri l vt k cb s))) =
     filter is_enter (trace s) @ [Enter_URIAtLine uri l vt k cb]"
proof -
  obtain evs tl where "list_all calm evs"
    "trace (snd (URIAtLine env uri l vt k cb s)) = trace s @ Enter_URIAtLine uri l vt k cb # evs @ tl"
    "tl = [] \<or> (\<exists>e. tl = [Log_exception e]) \<or> (\<exists>p' l' vt'. tl = [open_request p' l' vt' cb])
      \<or> (\<exists>p' l' vt' e. tl = [open_request p' l' vt' cb, Log_exception e])"
    by (rule URIAtLine_trace)
  then show ?thesis by (auto simp: kind_simps calm_list)
qed

lemma URIAtLine_no_callback:
  "\<not> list_ex is_callback (drop (length (trace s)) (trace (snd (URIAtLine env uri l vt k cb s))))"
proof -
  obtain evs tl where "list_all calm evs"
    "trace (snd (URIAtLine env uri l vt k cb s)) = trace s @ Enter_URIAtLine uri l vt k cb # evs @ tl"
    "tl = [] \<or> (\<exists>e. tl = [Log_exception e]) \<or> (\<exists>p' l' vt'. tl = [open_request p' l' vt' cb])
      \<or> (\<exists>p' l' vt' e. tl = [open_request p' l' vt' cb, Log_exception e])"
    by (rule URIAtLine_trace)
  then show ?thesis by (auto simp: kind_simps calm_list)
qed

section \<open>Lemmas: the flag, and the loop of \<^verbatim>\<open>multipleURIs\<close>\<close>

lemma loadSqliteDatabase_fst:
  "fst (loadSqliteDatabase env p s) = fst (loadSqliteDatabase env p s')"
  by (simp add: loadSqliteDatabase_def ret_def request_def split: option.splits)

lemma URIAtLine_flag:
  "skipNextPrompt (snd (URIAtLine env uri l vt k cb s)) =
     skipNextPrompt (snd (URIAtLine_try env uri l vt k cb
        (s\<lparr>trace := trace s @ [Enter_URIAtLine uri l vt k cb]\<rparr>)))"
  by (cases "URIAtLine_try env uri l vt k cb
        (s\<lparr>trace := trace s @ [Enter_URIAtLine uri l vt k cb]\<rparr>)")
     (auto simp: URIAtLine_eq split: sum.splits)

lemma recentURI_enters:
  "fst (recentURI env u vt k s) = Inr () \<and>
   filter is_enter (trace (snd (recentURI env u vt k s))) =
     filter is_enter (trace s) @
       [Enter_URIAtLine u None (if falsy vt then Some ''editor'' else vt) k (Some (PruneFileMRU u))]"
  by (simp add: recentURI_def URI_def URIAtLine_returns URIAtLine_enters kind_simps)

lemma open_each_enters:
  assumes "\<And>u s. fst (f u s) = Inr () \<and>
     filter is_enter (trace (snd (f u s))) = filter is_enter (trace s) @ [g u]"
  shows "fst (open_each f urls s) = Inr () \<and>
    filter is_enter (trace (snd (open_each f urls s))) = filter is_enter (trace s) @ map g urls"
proof (induction urls arbitrary: s)
  case Nil
  then show ?case by (simp add: ret_def)
next
  case (Cons u us)
  obtain s' where f: "f u s = (Inr (), s')"
    using assms[of u s] by (cases "f u s") auto
  then have "open_each f (u # us) s = open_each f us s'"
    by (simp add: bnd_def)
  moreover have "filter is_enter (trace s') = filter is_enter (trace s) @ [g u]"
    using assms[of u s] f by simp
  ultimately show ?case using Cons.IH[of s'] by simp
qed

lemma open_batch_enters:
  "filter is_enter (trace (snd (open_batch env urls vt isRecent s))) =
     filter is_enter (trace s) @ map (single_open_entry isRecent vt) urls"
proof -
  let ?f = "\<lambda>u. if isRecent then recentURI env u vt True else URI env u vt True None"
  let ?s0 = "if 1 < length urls then s\<lparr>batchMode := True\<rparr> else s"
  have step: "fst (?f u t) = Inr () \<and>
     filter is_enter (trace (snd (?f u t))) = filter is_enter (trace t) @ [single_open_entry isRecent vt u]"
    for u t
    using recentURI_enters[of env u vt True t]
    by (simp add: single_open_entry_def URI_def URIAtLine_returns URIAtLine_enters)
  from open_each_enters[of ?f "single_open_entry isRecent vt" urls ?s0, OF step]
  obtain s' where oe: "open_each ?f urls ?s0 = (Inr (), s')"
    and en: "filter is_enter (trace s') = filter is_enter (trace ?s0) @ map (single_open_entry isRecent vt) urls"
    by (cases "open_each ?f urls ?s0") auto
  have "open_batch env urls vt isRecent s = (Inr (), s'\<lparr>trace := trace s' @ [AddEventListener ''view_opened'']\<rparr>)"
    using oe by (simp add: open_batch_def bnd_def emit_def)
  then show ?thesis using en by (simp add: kind_simps)
qed

section \<open>Lemmas: construction of a widget\<close>

lemma plain_name_strip_nonword: "plain_name (strip_nonword x)"
  by (simp add: plain_name_def strip_nonword_def list_all_iff)

lemma find_group_plain_name:
  "plain_name g \<Longrightarrow> find_group env g tb = Inr (index_of g (map fst tb))"
  by (simp add: find_group_def)

lemma new_dynamicButton_ok:
  assumes "storage s (f_id opts) = Some h"
    and "find_group env (f_group opts) (toolbar s) = Inr found"
  shows "\<exists>w s'. new_dynamicButton env key opts s = (Inr w, s') \<and> buttons s' = buttons s
           \<and> storage s' = storage s"
  using assms
  by (cases found) (auto simp: new_dynamicButton_def debounce_def Let_def split: option.splits)

section \<open>Lemmas: timers\<close>

lemma recompute_frame:
  "timers (snd (recompute env k w s)) = timers s"
  "clock (snd (recompute env k w s)) = clock s"
  "recomputed (snd (recompute env k w s)) =
     recomputed s @ [(k, enabled_at env (w_isEnabled w) (clock s))]"
  "buttons (snd (recompute env k w s)) =
     (buttons s)(k \<mapsto> w\<lparr>w_attrs := (w_attrs w)(''disabled'' \<mapsto>
        AStr (if enabled_at env (w_isEnabled w) (clock s) then ''false'' else ''true''))\<rparr>)"
  by (simp_all add: recompute_def Let_def split: option.splits)

lemma update_now_frame:
  "timers (snd (update env k True s)) = timers s"
  "clock (snd (update env k True s)) = clock s"
  by (simp_all add: update_def recompute_frame split: option.splits)

lemma update_now_other:
  assumes "k \<noteq> key"
  shows "buttons (snd (update env k True s)) key = buttons s key"
    and "recomputed_for key (snd (update env k True s)) = recomputed_for key s"
  using assms by (simp_all add: update_def recompute_frame recomputed_for_def split: option.splits)

lemma update_now_self:
  assumes "buttons s key = Some w"
  shows "buttons (snd (update env key True s)) key =
      Some (w\<lparr>w_attrs := (w_attrs w)(''disabled'' \<mapsto>
        AStr (if enabled_at env (w_isEnabled w) (clock s) then ''false'' else ''true''))\<rparr>)"
    and "recomputed (snd (update env key True s)) =
      recomputed s @ [(key, enabled_at env (w_isEnabled w) (clock s))]"
  using assms by (simp_all add: update_def recompute_frame)

lemma recomputed_for_upd:
  "recomputed_for key (s\<lparr>clock := c\<rparr>) = recomputed_for key s"
  "recomputed_for key (s\<lparr>timers := ts\<rparr>) = recomputed_for key s"
  by (simp_all add: recomputed_for_def)

lemma fire_frame:
  "timers (fire env s tm) = timers s"
  "clock (fire env s tm) = max (clock s) (fst (snd tm))"
  by (simp_all add: fire_def update_now_frame)

lemma fire_other:
  assumes "snd (snd tm) \<noteq> key"
  shows "buttons (fire env s tm) key = buttons s key"
    and "recomputed_for key (fire env s tm) = recomputed_for key s"
  using assms by (simp_all add: fire_def update_now_other recomputed_for_upd)

lemma fire_self:
  assumes "snd (snd tm) = key" "buttons s key = Some w"
  shows "buttons (fire env s tm) key =
      Some (w\<lparr>w_attrs := (w_attrs w)(''disabled'' \<mapsto>
        AStr (if enabled_at env (w_isEnabled w) (max (clock s) (fst (snd tm)))
              then ''false'' else ''true''))\<rparr>)"
    and "recomputed_for key (fire env s tm) =
      recomputed_for key s @ [(key, enabled_at env (w_isEnabled w) (max (clock s) (fst (snd tm))))]"
proof -
  let ?s = "s\<lparr>clock := max (clock s) (fst (snd tm))\<rparr>"
  have b: "buttons ?s key = Some w" using assms(2) by simp
  show "buttons (fire env s tm) key =
      Some (w\<lparr>w_attrs := (w_attrs w)(''disabled'' \<mapsto>
        AStr (if enabled_at env (w_isEnabled w) (max (clock s) (fst (snd tm)))
              then ''false'' else ''true''))\<rparr>)"
    unfolding fire_def assms(1) using update_now_self(1)[OF b, of env] by simp
  show "recomputed_for key (fire env s tm) =
      recomputed_for key s @ [(key, enabled_at env (w_isEnabled w) (max (clock s) (fst (snd tm))))]"
    unfolding fire_def assms(1) recomputed_for_def using update_now_self(2)[OF b, of env] by simp
qed

lemma foldl_fire_timers: "timers (foldl (fire env) s tms) = timers s"
  by (induction tms arbitrary: s) (simp_all add: fire_frame)

lemma foldl_fire_other:
  assumes "list_all (\<lambda>tm. snd (snd tm) \<noteq> key) tms"
  shows "buttons (foldl (fire env) s tms) key = buttons s key \<and>
         recomputed_for key (foldl (fire env) s tms) = recomputed_for key s"
  using assms by (induction tms arbitrary: s) (simp_all add: fire_other)

lemma foldl_fire_clock:
  assumes "clock s \<le> d" "list_all (\<lambda>tm. fst (snd tm) \<le> d) tms"
  shows "clock (foldl (fire env) s tms) \<le> d"
  using assms by (induction tms arbitrary: s) (simp_all add: fire_frame)

lemma advance_frame:
  "timers (advance env t s) = filter (\<lambda>tm. t < fst (snd tm)) (timers s)"
  "clock (advance env t s) = max (clock s) t"
  by (simp_all add: advance_def foldl_fire_timers)

lemma pending_advance:
  "pending key (advance env t s) = filter (\<lambda>tm. t < fst (snd tm)) (pending key s)"
  by (simp add: pending_def advance_frame conj_commute)

lemma due_of_key:
  "filter (\<lambda>tm. snd (snd tm) = key)
     (sort_key (\<lambda>tm. fst (snd tm)) (filter (\<lambda>tm. fst (snd tm) \<le> t) (timers s))) =
   sort_key (\<lambda>tm. fst (snd tm)) (filter (\<lambda>tm. fst (snd tm) \<le> t) (pending key s))"
  by (simp add: filter_sort pending_def conj_commute)

lemma advance_none:
  assumes "filter (\<lambda>tm. fst (snd tm) \<le> t) (pending key s) = []"
  shows "buttons (advance env t s) key = buttons s key"
    and "recomputed_for key (advance env t s) = recomputed_for key s"
proof -
  let ?due = "sort_key (\<lambda>tm. fst (snd tm)) (filter (\<lambda>tm. fst (snd tm) \<le> t) (timers s))"
  let ?s0 = "s\<lparr>timers := filter (\<lambda>tm. t < fst (snd tm)) (timers s)\<rparr>"
  have "filter (\<lambda>tm. snd (snd tm) = key) ?due = []"
    unfolding due_of_key assms by simp
  then have "list_all (\<lambda>tm. snd (snd tm) \<noteq> key) ?due"
    by (simp add: filter_empty_conv list_all_iff)
  from foldl_fire_other[OF this, of env ?s0]
  show "buttons (advance env t s) key = buttons s key"
    and "recomputed_for key (advance env t s) = recomputed_for key s"
    by (simp_all add: advance_def recomputed_for_def)
qed

lemma advance_one:
  assumes "pending key s = [(n, d, key)]" "d \<le> T" "clock s \<le> d" "buttons s key = Some w"
  shows "buttons (advance env T s) key =
      Some (w\<lparr>w_attrs := (w_attrs w)(''disabled'' \<mapsto>
        AStr (if enabled_at env (w_isEnabled w) d then ''false'' else ''true''))\<rparr>)"
    and "recomputed_for key (advance env T s) =
      recomputed_for key s @ [(key, enabled_at env (w_isEnabled w) d)]"
proof -
  let ?f = "\<lambda>tm::nat \<times> nat \<times> string. fst (snd tm)"
  let ?due = "sort_key ?f (filter (\<lambda>tm. ?f tm \<le> T) (timers s))"
  let ?s0 = "s\<lparr>timers := filter (\<lambda>tm. T < fst (snd tm)) (timers s)\<rparr>"
  let ?k = "\<lambda>tm::nat \<times> nat \<times> string. snd (snd tm) = key"
  have fk: "filter ?k ?due = [(n, d, key)]"
    unfolding due_of_key assms(1) using assms(2) by simp
  then have "(n, d, key) \<in> set (filter ?k ?due)"
    by (simp only: list.set_intros)
  then have "(n, d, key) \<in> set ?due"
    using filter_is_subset[of ?k ?due] by (rule_tac subsetD)
  then obtain pre post where sp: "?due = pre @ (n, d, key) # post"
    by (meson split_list)
  from fk have "filter ?k pre @ (n, d, key) # filter ?k post = [(n, d, key)]"
    unfolding sp by simp
  then have e: "filter ?k pre = []" "filter ?k post = []"
    by (simp_all add: append_eq_Cons_conv)
  then have o: "list_all (\<lambda>tm. snd (snd tm) \<noteq> key) pre" "list_all (\<lambda>tm. snd (snd tm) \<noteq> key) post"
    by (simp_all add: filter_empty_conv list_all_iff)
  have "sorted (map ?f ?due)" by simp
  then have "sorted (map ?f pre @ d # map ?f post)" unfolding sp by simp
  then have le: "list_all (\<lambda>tm. ?f tm \<le> d) pre"
    by (auto simp: sorted_append list_all_iff)
  let ?s1 = "foldl (fire env) ?s0 pre"
  have c1: "clock ?s1 \<le> d"
    by (rule foldl_fire_clock[OF _ le]) (simp add: assms(3))
  have b1: "buttons ?s1 key = Some w" "recomputed_for key ?s1 = recomputed_for key s"
    using foldl_fire_other[OF o(1), of env ?s0] assms(4) by (simp_all add: recomputed_for_def)
  let ?s2 = "fire env ?s1 (n, d, key)"
  have m: "max (clock ?s1) d = d" using c1 by simp
  have b2: "buttons ?s2 key =
      Some (w\<lparr>w_attrs := (w_attrs w)(''disabled'' \<mapsto>
        AStr (if enabled_at env (w_isEnabled w) d then ''false'' else ''true''))\<rparr>)"
    "recomputed_for key ?s2 = recomputed_for key s @ [(key, enabled_at env (w_isEnabled w) d)]"
    using fire_self[of "(n, d, key)" key ?s1 w env] b1 m by simp_all
  have fin: "foldl (fire env) ?s0 ?due = foldl (fire env) ?s2 post"
    unfolding sp by simp
  from foldl_fire_other[OF o(2), of env ?s2] b2
  show "buttons (advance env T s) key =
      Some (w\<lparr>w_attrs := (w_attrs w)(''disabled'' \<mapsto>
        AStr (if enabled_at env (w_isEnabled w) d then ''false'' else ''true''))\<rparr>)"
    and "recomputed_for key (advance env T s) =
      recomputed_for key s @ [(key, enabled_at env (w_isEnabled w) d)]"
    unfolding advance_def fin by (simp_all add: recomputed_for_def)
qed

lemma update_later:
  assumes "buttons s key = Some w"
  shows "timers (snd (update env key False s)) =
           clearTimeout (w_timer w) (timers s) @ [(next_timer s, clock s + 250, key)]"
    "buttons (snd (update env key False s)) = (buttons s)(key \<mapsto> w\<lparr>w_timer := Some (next_timer s)\<rparr>)"
    "clock (snd (update env key False s)) = clock s"
    "recomputed (snd (update env key False s)) = recomputed s"
  using assms by (simp_all add: update_def debounce_def)

lemma first_request:
  assumes "buttons s key = Some w"
    and "list_all (\<lambda>tm. w_timer w = Some (fst tm)) (pending key s)"
  shows "one_pending key w (snd (update env key False s)) (clock s)"
proof -
  have "filter (\<lambda>tm. snd (snd tm) = key) (clearTimeout (w_timer w) (timers s)) = []"
    using assms(2)
    by (auto simp: clearTimeout_def pending_def list_all_iff filter_empty_conv split: option.splits)
  then show ?thesis
    unfolding one_pending_def using assms(1)
    by (simp add: update_later[OF assms(1)] pending_def)
qed

lemma next_request:
  assumes "one_pending key w s t0" "t0 \<le> t" "t < t0 + 250"
  shows "one_pending key w (snd (update env key False (advance env t s))) t"
    and "recomputed_for key (snd (update env key False (advance env t s))) = recomputed_for key s"
proof -
  from assms(1) obtain n where w: "buttons s key = Some (w\<lparr>w_timer := Some n\<rparr>)"
    "pending key s = [(n, t0 + 250, key)]" "clock s = t0"
    unfolding one_pending_def by blast
  let ?a = "advance env t s"
  let ?w = "w\<lparr>w_timer := Some n\<rparr>"
  have nd: "filter (\<lambda>tm. fst (snd tm) \<le> t) (pending key s) = []"
    using w(2) assms(3) by simp
  have b: "buttons ?a key = Some ?w" "recomputed_for key ?a = recomputed_for key s"
    using advance_none[OF nd, of env] w(1) by simp_all
  have p: "pending key ?a = [(n, t0 + 250, key)]"
    using w(2) assms(3) by (simp add: pending_advance)
  have c: "clock ?a = t" using w(3) assms(2) by (simp add: advance_frame)
  have "list_all (\<lambda>tm. w_timer ?w = Some (fst tm)) (pending key ?a)"
    using p by simp
  from first_request[OF b(1) this, of env] c
  show "one_pending key w (snd (update env key False ?a)) t"
    by (simp add: one_pending_def)
  show "recomputed_for key (snd (update env key False ?a)) = recomputed_for key s"
    using b(2) by (simp add: update_later[OF b(1)] recomputed_for_def)
qed

lemma requests_window:
  assumes "one_pending key w s t0" "within_window t0 ts"
  shows "one_pending key w (requests env key ts s) (last (t0 # ts)) \<and>
         recomputed_for key (requests env key ts s) = recomputed_for key s"
  using assms
proof (induction ts arbitrary: s t0)
  case Nil
  then show ?case by simp
next
  case (Cons t ts)
  from Cons.prems have t: "t0 \<le> t" "t < t0 + 250" "within_window t ts" by simp_all
  from next_request[OF Cons.prems(1) t(1,2), of env]
  have "one_pending key w (snd (update env key False (advance env t s))) t"
    "recomputed_for key (snd (update env key False (advance env t s))) = recomputed_for key s"
    by simp_all
  with Cons.IH[OF _ t(3), of "snd (update env key False (advance env t s))"]
  show ?case by simp
qed

lemma answer_at_eq:
  "buttons s key = Some w \<Longrightarrow> answer_at env s key t = enabled_at env (w_isEnabled w) t"
  by (simp add: answer_at_def enabled_at_def)

lemma update_now_collapsed:
  assumes "only_child s key"
  shows "collapsed_attr (snd (update env key True s)) key =
           Some (if answer_at env s key (clock s) then ''false'' else ''true'')"
proof -
  from assms obtain w i where w: "buttons s key = Some w" "w_parent w = Some i"
    "i < length (toolbar s)" "length (g_children (snd (toolbar s ! i))) = 1"
    by (auto simp: only_child_def split: option.splits)
  have a: "answer_at env s key (clock s) = enabled_at env (w_isEnabled w) (clock s)"
    by (rule answer_at_eq[OF w(1)])
  show ?thesis
    unfolding a using w
    by (simp add: collapsed_attr_def update_def recompute_def set_group_def Let_def)
qed

lemma update_now_group:
  assumes "group_children s key = Some cs" "length cs \<noteq> 1"
  shows "collapsed_attr (snd (update env key True s)) key =
           Some (if visible_children (buttons (snd (update env key True s))) cs = []
                 then ''true'' else ''false'')"
proof -
  from assms obtain w i where w: "buttons s key = Some w" "w_parent w = Some i"
    "i < length (toolbar s)" "g_children (snd (toolbar s ! i)) = cs"
    by (auto simp: group_children_def split: option.splits if_splits)
  show ?thesis
    using w assms(2)
    by (simp add: collapsed_attr_def update_def recompute_def set_group_def Let_def)
qed

section \<open>The claims about \<^verbatim>\<open>open.p.js\<close>\<close>

subsection \<open>C2: \<^verbatim>\<open>displayPath\<close> on a path that is already open\<close>

text \<open>
  Claim C2 says that opening a display path already shown by a view of the requested type
  refocuses that view, calls the callback with it when there is one, and issues no
  fallback open, whatever the callback argument is. The \<^verbatim>\<open>return\<close> of the loop stands
  inside \<^verbatim>\<open>if (callback)\<close>: with the editor view 7 showing \<^verbatim>\<open>/tmp/notes.txt\<close> and no
  callback, the view is made current and the loop runs to its end, so \<^verbatim>\<open>ko.open.URI\<close> is
  entered and the view manager is asked to open the file again. With a callback the run
  is the one the claim describes.
\<close>

theorem displayPath_without_callback_falls_back:
  "trace (snd (displayPath plain_env ''/tmp/notes.txt'' None None initial_ostate)) =
     [MakeCurrent 7,
      Enter_URIAtLine ''/tmp/notes.txt'' None (Some ''editor'') True None,
      DoFileOpenAsync ''/tmp/notes.txt'' (Some ''editor'') None]
   \<and> trace (snd (displayPath plain_env ''/tmp/notes.txt'' None (Some (UserCallback 1))
                   initial_ostate)) =
     [MakeCurrent 7, Invoke_callback (UserCallback 1) (Some 7)]"
  by code_simp

subsection \<open>C3: exceptions inside \<^verbatim>\<open>URIAtLine\<close>\<close>

text \<open>
  Claim C3, as amended: on every input on which the \<^verbatim>\<open>try\<close> block of \<^verbatim>\<open>URIAtLine\<close> raises an
  exception \<open>e\<close>, \<^verbatim>\<open>URIAtLine\<close> returns to its caller (the result is \<^verbatim>\<open>null\<close>, never an
  exception); what the call leaves in the record of requests is what the block did,
  followed by the log entry for \<open>e\<close>; the dispatcher invokes no callback; and either no
  request to open a file was made, or the one such request is the last thing the block
  did, and \<open>e\<close> is what that request raised.
\<close>

theorem URIAtLine_swallows_exceptions:
  assumes "fst (URIAtLine_try env uri lineno viewType k cb
             (s\<lparr>trace := trace s @ [Enter_URIAtLine uri lineno viewType k cb]\<rparr>)) = Inl e"
  shows "fst (URIAtLine env uri lineno viewType k cb s) = Inr ()
       \<and> trace (snd (URIAtLine env uri lineno viewType k cb s)) =
           trace (snd (URIAtLine_try env uri lineno viewType k cb
             (s\<lparr>trace := trace s @ [Enter_URIAtLine uri lineno viewType k cb]\<rparr>)))
           @ [Log_exception e]
       \<and> \<not> list_ex is_callback
             (drop (length (trace s)) (trace (snd (URIAtLine env uri lineno viewType k cb s))))
       \<and> (\<not> list_ex is_open_request
               (drop (length (trace s))
                  (trace (snd (URIAtLine env uri lineno viewType k cb s))))
          \<or> (\<exists>evs p l vt. list_all calm evs
                \<and> trace (snd (URIAtLine env uri lineno viewType k cb s)) =
                    trace s @ Enter_URIAtLine uri lineno viewType k cb # evs
                      @ [open_request p l vt cb, Log_exception e]
                \<and> open_outcome env p l vt = Some e))"
proof -
  let ?s1 = "s\<lparr>trace := trace s @ [Enter_URIAtLine uri lineno viewType k cb]\<rparr>"
  let ?t = "URIAtLine_try env uri lineno viewType k cb ?s1"
  let ?u = "URIAtLine env uri lineno viewType k cb s"
  have logged: "trace (snd ?u) = trace (snd ?t) @ [Log_exception e]"
    using assms by (cases ?t) (auto simp: URIAtLine_eq)
  from try_shape[of env cb ?s1 uri lineno viewType k] obtain evs where
    c: "list_all calm evs" and
    d: "trace (snd ?t) = trace ?s1 @ evs \<or>
        (\<exists>p l vt. trace (snd ?t) = trace ?s1 @ evs @ [open_request p l vt cb] \<and>
           fst ?t = outcome (open_outcome env p l vt))"
    unfolding run_shape_def by auto
  have last: "\<not> list_ex is_open_request (drop (length (trace s)) (trace (snd ?u)))
     \<or> (\<exists>evs p l vt. list_all calm evs
           \<and> trace (snd ?u) = trace s @ Enter_URIAtLine uri lineno viewType k cb # evs
                 @ [open_request p l vt cb, Log_exception e]
           \<and> open_outcome env p l vt = Some e)"
  proof (cases "trace (snd ?t) = trace ?s1 @ evs")
    case True
    then have "\<not> list_ex is_open_request (drop (length (trace s)) (trace (snd ?u)))"
      unfolding logged using c by (simp add: kind_simps calm_list)
    then show ?thesis by blast
  next
    case False
    with d obtain p l vt where
      t: "trace (snd ?t) = trace ?s1 @ evs @ [open_request p l vt cb]"
      and o: "fst ?t = outcome (open_outcome env p l vt)"
      by blast
    from o assms have "open_outcome env p l vt = Some e"
      by (cases "open_outcome env p l vt") (simp_all add: outcome_def)
    moreover have "trace (snd ?u) = trace s @ Enter_URIAtLine uri lineno viewType k cb # evs
                 @ [open_request p l vt cb, Log_exception e]"
      unfolding logged t by simp
    ultimately show ?thesis using c by blast
  qed
  show ?thesis
    by (intro conjI URIAtLine_returns logged URIAtLine_no_callback last)
qed

text \<open>
  The theorem at work, the caller having passed callback 1. When \<^verbatim>\<open>pathToURI\<close> raises, the
  call returns, nothing is opened and no callback is invoked. When the view manager's
  \<^verbatim>\<open>doFileOpenAsync\<close> raises, the call returns as well, and the record ends with the request
  to open and the log entry for what it raised.
\<close>

theorem URIAtLine_swallows_exceptions_witness:
  "fst (URIAtLine_try failing_env ''/tmp/x.txt'' None None False (Some (UserCallback 1))
          (initial_ostate\<lparr>trace := trace initial_ostate @
             [Enter_URIAtLine ''/tmp/x.txt'' None None False (Some (UserCallback 1))]\<rparr>))
     = Inl ''pathToURI failed''
   \<and> fst (URIAtLine failing_env ''/tmp/x.txt'' None None False (Some (UserCallback 1))
            initial_ostate) = Inr ()
   \<and> \<not> list_ex is_callback
         (drop (length (trace initial_ostate))
            (trace (snd (URIAtLine failing_env ''/tmp/x.txt'' None None False
                           (Some (UserCallback 1)) initial_ostate))))
   \<and> \<not> list_ex is_open_request
         (drop (length (trace initial_ostate))
            (trace (snd (URIAtLine failing_env ''/tmp/x.txt'' None None False
                           (Some (UserCallback 1)) initial_ostate))))
   \<and> fst (URIAtLine_try refusing_env ''/tmp/x.txt'' None None False (Some (UserCallback 1))
          (initial_ostate\<lparr>trace := trace initial_ostate @
             [Enter_URIAtLine ''/tmp/x.txt'' None None False (Some (UserCallback 1))]\<rparr>))
     = Inl ''doFileOpenAsync failed''
   \<and> fst (URIAtLine refusing_env ''/tmp/x.txt'' None None False (Some (UserCallback 1))
            initial_ostate) = Inr ()
   \<and> (\<exists>evs p l vt. list_all calm evs
         \<and> trace (snd (URIAtLine refusing_env ''/tmp/x.txt'' None None False
                          (Some (UserCallback 1)) initial_ostate)) =
             trace initial_ostate
               @ Enter_URIAtLine ''/tmp/x.txt'' None None False (Some (UserCallback 1)) # evs
               @ [open_request p l vt (Some (UserCallback 1)),
                  Log_exception ''doFileOpenAsync failed'']
         \<and> open_outcome refusing_env p l vt = Some ''doFileOpenAsync failed'')"
proof -
  let ?cb = "Some (UserCallback 1)"
  have raised:
    "fst (URIAtLine_try failing_env ''/tmp/x.txt'' None None False ?cb
          (initial_ostate\<lparr>trace := trace initial_ostate @
             [Enter_URIAtLine ''/tmp/x.txt'' None None False ?cb]\<rparr>))
     = Inl ''pathToURI failed''"
    by code_simp
  have refused:
    "fst (URIAtLine_try refusing_env ''/tmp/x.txt'' None None False ?cb
          (initial_ostate\<lparr>trace := trace initial_ostate @
             [Enter_URIAtLine ''/tmp/x.txt'' None None False ?cb]\<rparr>))
     = Inl ''doFileOpenAsync failed''"
    by code_simp
  have none: "\<not> list_ex is_open_request
         (drop (length (trace initial_ostate))
            (trace (snd (URIAtLine failing_env ''/tmp/x.txt'' None None False ?cb
               initial_ostate))))"
    by code_simp
  have some: "list_ex is_open_request
         (drop (length (trace initial_ostate))
            (trace (snd (URIAtLine refusing_env ''/tmp/x.txt'' None None False ?cb
               initial_ostate))))"
    by code_simp
  show ?thesis
    using URIAtLine_swallows_exceptions[OF raised] URIAtLine_swallows_exceptions[OF refused]
      raised refused none some
    by blast
qed

text \<open>
  Claim C3 as it was stated fails: it has the supplied callback receive a \<^verbatim>\<open>null\<close> view. On
  the first input above the record of the call holds the entry and the log entry only;
  callback 1 is not invoked with \<^verbatim>\<open>null\<close>, and no request that carries it was made.
\<close>

theorem URIAtLine_exception_callback_not_called:
  "trace (snd (URIAtLine failing_env ''/tmp/x.txt'' None None False (Some (UserCallback 1))
                 initial_ostate)) =
     [Enter_URIAtLine ''/tmp/x.txt'' None None False (Some (UserCallback 1)),
      Log_exception ''pathToURI failed'']
   \<and> Invoke_callback (UserCallback 1) None
       \<notin> set (trace (snd (URIAtLine failing_env ''/tmp/x.txt'' None None False
                             (Some (UserCallback 1)) initial_ostate)))"
  by code_simp

subsection \<open>C5: a line number at the end of the uri\<close>

text \<open>
  Claim C5: for every URI string \<open>p @ sep @ N\<close> where \<open>sep\<close> is \<^verbatim>\<open>#\<close>, \<^verbatim>\<open>%23\<close>, \<^verbatim>\<open>:\<close> (or
  \<^verbatim>\<open>%3A\<close>) and \<open>N\<close> is one digit or more: when the line number argument is \<^verbatim>\<open>null\<close>, the
  line number becomes \<open>N\<close> and the uri that is classified is \<open>p\<close>; when a line number is
  supplied, it is kept and the uri is left as it is. The dispatch of \<^verbatim>\<open>URIAtLine\<close> runs on
  exactly these.
\<close>

theorem embedded_line_number_split:
  assumes "sep \<in> {''#'', ''%23'', '':'', ''%3A''}" and "all_digits N"
    and "uri_string (p @ sep @ N)"
  shows "split_lineno (p @ sep @ N) None = (p, Some (LStr N))
       \<and> split_lineno (p @ sep @ N) (Some l) = (p @ sep @ N, Some l)
       \<and> (pathToURI env uri = Inr (p @ sep @ N) \<longrightarrow>
            URIAtLine_try env uri None viewType k cb s =
              dispatch env p (Some (LStr N)) viewType k cb s
          \<and> URIAtLine_try env uri (Some l) viewType k cb s =
              dispatch env (p @ sep @ N) (Some l) viewType k cb s)"
proof -
  have np: "\<not> list_ex is_line_terminator p"
    using assms(3) by (simp add: uri_string_def list_ex_iff)
  have a: "split_lineno (p @ sep @ N) None = (p, Some (LStr N))"
    by (simp add: split_lineno_def fileLineNoRE_exec_suffix[OF assms(1,2) np])
  have b: "split_lineno (p @ sep @ N) (Some l) = (p @ sep @ N, Some l)"
    by (simp add: split_lineno_def)
  show ?thesis
    using a b by (simp add: URIAtLine_try_def bnd_def query_def)
qed

text \<open>
  The theorem at work on \<^verbatim>\<open>file.txt:42\<close>, and on a uri that holds an encoded line feed
  before the suffix \<^verbatim>\<open>%2312\<close>.
\<close>

theorem embedded_line_number_split_witness:
  "'':'' \<in> {''#'', ''%23'', '':'', ''%3A''} \<and> all_digits ''42''
   \<and> uri_string ''file.txt:42''
   \<and> split_lineno ''file.txt:42'' None = (''file.txt'', Some (LStr ''42''))
   \<and> split_lineno ''file.txt:42'' (Some (LNum 7)) = (''file.txt:42'', Some (LNum 7))
   \<and> pathToURI plain_env ''file.txt:42'' = Inr ''file.txt:42''
   \<and> URIAtLine_try plain_env ''file.txt:42'' None None False None initial_ostate =
       dispatch plain_env ''file.txt'' (Some (LStr ''42'')) None False None initial_ostate
   \<and> uri_string ''a%0Ab%2312''
   \<and> split_lineno ''a%0Ab%2312'' None = (''a%0Ab'', Some (LStr ''12''))"
proof -
  have h1: "'':'' \<in> {''#'', ''%23'', '':'', ''%3A''}" by simp
  have h2: "all_digits ''42''" by code_simp
  have h3: "uri_string (''file.txt'' @ '':'' @ ''42'')" by code_simp
  have h4: "pathToURI plain_env (''file.txt'' @ '':'' @ ''42'') = Inr (''file.txt'' @ '':'' @ ''42'')"
    by (simp add: plain_env_def)
  have g1: "''%23'' \<in> {''#'', ''%23'', '':'', ''%3A''}" by simp
  have g2: "all_digits ''12''" by code_simp
  have g3: "uri_string (''a%0Ab'' @ ''%23'' @ ''12'')" by code_simp
  show ?thesis
    using embedded_line_number_split[OF h1 h2 h3, of "LNum 7" plain_env "''file.txt:42''"
        None False None initial_ostate]
      embedded_line_number_split[OF g1 g2 g3, of "LNum 7" plain_env "''x''"
        None False None initial_ostate] h1 h2 h3 h4 g3
    by simp
qed

subsection \<open>C6: a colour scheme file while \<^verbatim>\<open>skipNextPrompt\<close> is set\<close>

text \<open>
  Claim C6: when \<^verbatim>\<open>skipNextPrompt\<close> is true and the uri (once \<^verbatim>\<open>pathToURI\<close> has returned it and
  the line number is split off) ends in \<^verbatim>\<open>.ksf\<close>, \<^verbatim>\<open>URIAtLine\<close> shows no prompt, asks the view
  manager to open the file as a document, with the caller's view type and callback, and
  returns with \<^verbatim>\<open>skipNextPrompt\<close> false. Should the view manager raise, that is logged.
\<close>

theorem skipNextPrompt_opens_ksf_as_text:
  assumes "skipNextPrompt s" and "pathToURI env uri = Inr u"
    and "ends_with_ci ''.ksf'' (fst (split_lineno u lineno))"
  shows "URIAtLine env uri lineno viewType k cb s =
           (Inr (),
            s\<lparr>skipNextPrompt := False,
              trace := trace s @
                [Enter_URIAtLine uri lineno viewType k cb,
                 open_request (fst (split_lineno u lineno)) (snd (split_lineno u lineno))
                   viewType cb]
                @ (case open_outcome env (fst (split_lineno u lineno))
                          (snd (split_lineno u lineno)) viewType of
                     None \<Rightarrow> [] | Some e \<Rightarrow> [Log_exception e])\<rparr>)
         \<and> \<not> list_ex is_prompt (drop (length (trace s))
                (trace (snd (URIAtLine env uri lineno viewType k cb s))))"
proof -
  let ?p = "fst (split_lineno u lineno)" and ?l = "snd (split_lineno u lineno)"
  let ?s1 = "s\<lparr>trace := trace s @ [Enter_URIAtLine uri lineno viewType k cb]\<rparr>"
  have "dispatch env ?p ?l viewType k cb ?s1 = open_in_view_manager env ?p ?l viewType cb ?s1"
    using assms(1) ksf_not_special[OF assms(3)]
    by (simp add: dispatch_default open_document_skip)
  then have eq: "URIAtLine env uri lineno viewType k cb s =
      try_catch (\<lambda>s. open_in_view_manager env ?p ?l viewType cb s)
        (\<lambda>e. emit (Log_exception e)) ?s1"
    unfolding URIAtLine_unfold[OF assms(2)] by (rule try_catch_at)
  show ?thesis
    unfolding eq finish_open
    by (simp add: open_request_not_prompt is_prompt_simps split: option.splits)
qed

theorem skipNextPrompt_opens_ksf_as_text_witness:
  "skipNextPrompt (initial_ostate\<lparr>skipNextPrompt := True\<rparr>)
   \<and> pathToURI plain_env ''/tmp/Dark.KSF'' = Inr ''/tmp/Dark.KSF''
   \<and> ends_with_ci ''.ksf'' (fst (split_lineno ''/tmp/Dark.KSF'' None))
   \<and> URIAtLine plain_env ''/tmp/Dark.KSF'' None None False None
       (initial_ostate\<lparr>skipNextPrompt := True\<rparr>) =
       (Inr (),
        initial_ostate\<lparr>trace :=
          [Enter_URIAtLine ''/tmp/Dark.KSF'' None None False None,
           DoFileOpenAsync ''/tmp/Dark.KSF'' None None]\<rparr>)"
proof -
  have h1: "skipNextPrompt (initial_ostate\<lparr>skipNextPrompt := True\<rparr>)" by simp
  have h2: "pathToURI plain_env ''/tmp/Dark.KSF'' = Inr ''/tmp/Dark.KSF''"
    by (simp add: plain_env_def)
  have sp: "split_lineno ''/tmp/Dark.KSF'' None = (''/tmp/Dark.KSF'', None)" by code_simp
  have h3: "ends_with_ci ''.ksf'' (fst (split_lineno ''/tmp/Dark.KSF'' None))" by code_simp
  have o: "doFileOpenAsync plain_env ''/tmp/Dark.KSF'' None = None" by (simp add: plain_env_def)
  show ?thesis
    using skipNextPrompt_opens_ksf_as_text[OF h1 h2 h3, of None False None] h1 h2 h3
    by (simp add: sp o open_request_def open_outcome_def initial_ostate_def)
qed

subsection \<open>C8: the batch of \<^verbatim>\<open>multipleURIs\<close>\<close>

text \<open>
  Claim C8: for a list of urls that is not empty and has remembered files, the answer
  Cancel to the prompt ends \<^verbatim>\<open>multipleURIs\<close> with nothing done but the prompt, so with no
  single open; the answer Yes makes it enter \<^verbatim>\<open>URIAtLine\<close> once for each url and then once
  for each remembered file, in that order: the number of urls plus the number of
  remembered files in all.
\<close>

theorem multipleURIs_open_calls:
  assumes "urls \<noteq> []" and "concat (map (remembered_files env) urls) \<noteq> []"
  shows "(yesNoCancel env (GetStringFromName env ''reopenProjectFilesPrompt'') = ''Cancel'' \<longrightarrow>
            multipleURIs env urls viewType isRecent s =
              (Inr (), s\<lparr>trace := trace s @
                 [YesNoCancel (GetStringFromName env ''reopenProjectFilesPrompt'')]\<rparr>)
          \<and> open_calls (snd (multipleURIs env urls viewType isRecent s)) = open_calls s)
       \<and> (yesNoCancel env (GetStringFromName env ''reopenProjectFilesPrompt'') = ''Yes'' \<longrightarrow>
            filter is_enter (trace (snd (multipleURIs env urls viewType isRecent s))) =
              filter is_enter (trace s) @
                map (single_open_entry isRecent viewType)
                  (urls @ concat (map (remembered_files env) urls))
          \<and> open_calls (snd (multipleURIs env urls viewType isRecent s)) =
              open_calls s + length urls + length (concat (map (remembered_files env) urls)))"
proof -
  let ?q = "GetStringFromName env ''reopenProjectFilesPrompt''"
  let ?s1 = "s\<lparr>trace := trace s @ [YesNoCancel ?q]\<rparr>"
  have cancel: "multipleURIs env urls viewType isRecent s = (Inr (), ?s1)"
    if "yesNoCancel env ?q = ''Cancel''"
    using assms that
    by (simp add: multipleURIs_def bnd_def emit_def ret_def del: concat_eq_Nil_conv)
  have yes: "multipleURIs env urls viewType isRecent s =
      open_batch env (urls @ concat (map (remembered_files env) urls)) viewType isRecent ?s1"
    if "yesNoCancel env ?q = ''Yes''"
    using assms that by (simp add: multipleURIs_def bnd_def emit_def del: concat_eq_Nil_conv)
  show ?thesis
    using cancel yes
    by (auto simp: open_calls_def open_batch_enters kind_simps)
qed

text \<open>
  The theorem at work on two urls, the first a project that remembers two files: four
  single opens when the user answers Yes, none when the user answers Cancel.
\<close>

theorem multipleURIs_open_calls_witness:
  "[''/p/site.komodoproject'', ''/p/x.txt''] \<noteq> []
   \<and> concat (map (remembered_files plain_env) [''/p/site.komodoproject'', ''/p/x.txt'']) =
       [''/p/a.html'', ''/p/b.css'']
   \<and> yesNoCancel plain_env (GetStringFromName plain_env ''reopenProjectFilesPrompt'') = ''Yes''
   \<and> open_calls (snd (multipleURIs plain_env [''/p/site.komodoproject'', ''/p/x.txt''] None
                         False initial_ostate)) = 4
   \<and> yesNoCancel cancel_env (GetStringFromName cancel_env ''reopenProjectFilesPrompt'')
       = ''Cancel''
   \<and> open_calls (snd (multipleURIs cancel_env [''/p/site.komodoproject'', ''/p/x.txt''] None
                         False initial_ostate)) = 0"
proof -
  let ?urls = "[''/p/site.komodoproject'', ''/p/x.txt'']"
  have h1: "?urls \<noteq> []" by simp
  have f: "concat (map (remembered_files plain_env) ?urls) = [''/p/a.html'', ''/p/b.css'']"
    by code_simp
  have g: "concat (map (remembered_files cancel_env) ?urls) = [''/p/a.html'', ''/p/b.css'']"
    by code_simp
  have h2: "concat (map (remembered_files plain_env) ?urls) \<noteq> []" unfolding f by simp
  have h3: "concat (map (remembered_files cancel_env) ?urls) \<noteq> []" unfolding g by simp
  have y: "yesNoCancel plain_env (GetStringFromName plain_env ''reopenProjectFilesPrompt'')
      = ''Yes''"
    by code_simp
  have c: "yesNoCancel cancel_env (GetStringFromName cancel_env ''reopenProjectFilesPrompt'')
      = ''Cancel''"
    by code_simp
  have z: "open_calls initial_ostate = 0" by code_simp
  from multipleURIs_open_calls[OF h1 h2, of None False initial_ostate] y
  have "open_calls (snd (multipleURIs plain_env ?urls None False initial_ostate)) =
      open_calls initial_ostate + length ?urls +
        length (concat (map (remembered_files plain_env) ?urls))"
    by blast
  then have four: "open_calls (snd (multipleURIs plain_env ?urls None False initial_ostate)) = 4"
    unfolding f z by simp
  from multipleURIs_open_calls[OF h1 h3, of None False initial_ostate] c
  have "open_calls (snd (multipleURIs cancel_env ?urls None False initial_ostate)) =
      open_calls initial_ostate"
    by blast
  then have none: "open_calls (snd (multipleURIs cancel_env ?urls None False initial_ostate)) = 0"
    unfolding z .
  show ?thesis
    by (intro conjI h1 f y four c none)
qed

subsection \<open>C9: images and audio files\<close>

text \<open>
  Claim C9, as amended: when \<^verbatim>\<open>skipNextPrompt\<close> is not set, the caller gave no view type,
  and the uri (once \<^verbatim>\<open>pathToURI\<close> has returned it and the line number is split off) ends in
  an image or audio extension, \<^verbatim>\<open>URIAtLine\<close> asks the view manager to open it with the view
  type \<^verbatim>\<open>browser\<close>.
\<close>

theorem media_opens_in_browser:
  assumes "\<not> skipNextPrompt s" and "falsy viewType" and "pathToURI env uri = Inr u"
    and "isImageUrl (fst (split_lineno u lineno)) \<or> isAudioUrl (fst (split_lineno u lineno))"
  shows "URIAtLine env uri lineno viewType k cb s =
           (Inr (),
            s\<lparr>trace := trace s @
                [Enter_URIAtLine uri lineno viewType k cb,
                 open_request (fst (split_lineno u lineno)) (snd (split_lineno u lineno))
                   (Some ''browser'') cb]
                @ (case open_outcome env (fst (split_lineno u lineno))
                          (snd (split_lineno u lineno)) (Some ''browser'') of
                     None \<Rightarrow> [] | Some e \<Rightarrow> [Log_exception e])\<rparr>)"
proof -
  let ?p = "fst (split_lineno u lineno)" and ?l = "snd (split_lineno u lineno)"
  let ?s1 = "s\<lparr>trace := trace s @ [Enter_URIAtLine uri lineno viewType k cb]\<rparr>"
  have "dispatch env ?p ?l viewType k cb ?s1 =
      open_in_view_manager env ?p ?l (Some ''browser'') cb ?s1"
    using assms(1,2) media_not_special(1-7)[OF assms(4)]
      open_document_media[OF _ assms(2,4), of ?s1]
    by (simp add: dispatch_default)
  then have eq: "URIAtLine env uri lineno viewType k cb s =
      try_catch (\<lambda>s. open_in_view_manager env ?p ?l (Some ''browser'') cb s)
        (\<lambda>e. emit (Log_exception e)) ?s1"
    unfolding URIAtLine_unfold[OF assms(3)] by (rule try_catch_at)
  show ?thesis
    unfolding eq finish_open using assms(1)
    by simp
qed

theorem media_opens_in_browser_witness:
  "\<not> skipNextPrompt initial_ostate \<and> falsy None
   \<and> pathToURI plain_env ''/tmp/logo.PNG:3'' = Inr ''/tmp/logo.PNG:3''
   \<and> isImageUrl (fst (split_lineno ''/tmp/logo.PNG:3'' None))
   \<and> URIAtLine plain_env ''/tmp/logo.PNG:3'' None None False None initial_ostate =
       (Inr (),
        initial_ostate\<lparr>trace :=
          [Enter_URIAtLine ''/tmp/logo.PNG:3'' None None False None,
           DoFileOpenAtLineAsync ''/tmp/logo.PNG'' (LStr ''3'') (Some ''browser'') None]\<rparr>)"
proof -
  have h1: "\<not> skipNextPrompt initial_ostate" by (simp add: initial_ostate_def)
  have h2: "falsy None" by (simp add: falsy_def)
  have h3: "pathToURI plain_env ''/tmp/logo.PNG:3'' = Inr ''/tmp/logo.PNG:3''"
    by (simp add: plain_env_def)
  have sp: "split_lineno ''/tmp/logo.PNG:3'' None = (''/tmp/logo.PNG'', Some (LStr ''3''))"
    by code_simp
  have i: "isImageUrl (fst (split_lineno ''/tmp/logo.PNG:3'' None))" by code_simp
  then have h4: "isImageUrl (fst (split_lineno ''/tmp/logo.PNG:3'' None))
      \<or> isAudioUrl (fst (split_lineno ''/tmp/logo.PNG:3'' None))" ..
  have o: "doFileOpenAtLineAsync plain_env ''/tmp/logo.PNG'' (LStr ''3'') (Some ''browser'') = None"
    by (simp add: plain_env_def)
  show ?thesis
    using media_opens_in_browser[OF h1 h2 h3 h4, of False None] h1 h2 h3 i
    by (simp add: sp o open_request_def open_outcome_def initial_ostate_def)
qed

text \<open>
  Claim C9 as it was stated fails: the test for images and audio files is the last branch
  inside \<^verbatim>\<open>if ( ! this.skipNextPrompt)\<close>. With the flag set and no view type given, the image
  \<^verbatim>\<open>/tmp/logo.png\<close> is opened with no view type, the view manager's default, and not as
  \<^verbatim>\<open>browser\<close>.
\<close>

theorem media_with_skipNextPrompt_not_in_browser:
  "URIAtLine plain_env ''/tmp/logo.png'' None None False None
     (initial_ostate\<lparr>skipNextPrompt := True\<rparr>) =
     (Inr (),
      initial_ostate\<lparr>trace :=
        [Enter_URIAtLine ''/tmp/logo.png'' None None False None,
         DoFileOpenAsync ''/tmp/logo.png'' None None]\<rparr>)"
  by code_simp

subsection \<open>C10: the flag outside the default branch\<close>

text \<open>
  Claim C10: when the uri (once \<^verbatim>\<open>pathToURI\<close> has returned it and the line number is split
  off) is a project file, an add-on package, a toolbox package, or a database file that
  \<^verbatim>\<open>loadSqliteDatabase\<close> handled, \<^verbatim>\<open>URIAtLine\<close> leaves \<^verbatim>\<open>skipNextPrompt\<close> as it was. And
  whatever the uri, a call that changes the flag is one that went down the default branch
  to its end: it has asked the view manager to open a file.
\<close>

theorem skipNextPrompt_kept_outside_default_branch:
  "(pathToURI env uri = Inr u \<and>
      (ends_with_ci ''.kpf'' (fst (split_lineno u lineno))
       \<or> ends_with_ci ''.komodoproject'' (fst (split_lineno u lineno))
       \<or> ends_with_ci ''.xpi'' (fst (split_lineno u lineno))
       \<or> ends_with_ci ''.kpz'' (fst (split_lineno u lineno))
       \<or> fst (loadSqliteDatabase env (fst (split_lineno u lineno)) s) = Inr True) \<longrightarrow>
      skipNextPrompt (snd (URIAtLine env uri lineno viewType k cb s)) = skipNextPrompt s)
   \<and> (skipNextPrompt (snd (URIAtLine env uri lineno viewType k cb s)) \<noteq> skipNextPrompt s \<longrightarrow>
        list_ex is_open_request
          (drop (length (trace s)) (trace (snd (URIAtLine env uri lineno viewType k cb s)))))"
proof (intro conjI impI)
  let ?p = "fst (split_lineno u lineno)" and ?l = "snd (split_lineno u lineno)"
  let ?s1 = "s\<lparr>trace := trace s @ [Enter_URIAtLine uri lineno viewType k cb]\<rparr>"
  assume a: "pathToURI env uri = Inr u \<and>
      (ends_with_ci ''.kpf'' ?p \<or> ends_with_ci ''.komodoproject'' ?p
       \<or> ends_with_ci ''.xpi'' ?p \<or> ends_with_ci ''.kpz'' ?p
       \<or> fst (loadSqliteDatabase env ?p s) = Inr True)"
  have t: "URIAtLine_try env uri lineno viewType k cb ?s1 = dispatch env ?p ?l viewType k cb ?s1"
    using a by (simp add: URIAtLine_try_def bnd_def query_def)
  have "skipNextPrompt (snd (dispatch env ?p ?l viewType k cb ?s1)) = skipNextPrompt ?s1"
  proof (cases "ends_with_ci ''.kpf'' ?p \<or> ends_with_ci ''.komodoproject'' ?p
       \<or> ends_with_ci ''.xpi'' ?p \<or> ends_with_ci ''.kpz'' ?p")
    case True
    then show ?thesis
      by (auto simp: dispatch_def request_def try_catch_def installAddon_def outcome_def
          split: option.splits)
  next
    case False
    with a have "fst (loadSqliteDatabase env ?p ?s1) = Inr True"
      using loadSqliteDatabase_fst[of env ?p s ?s1] by simp
    then obtain s' where ld: "loadSqliteDatabase env ?p ?s1 = (Inr True, s')"
      by (cases "loadSqliteDatabase env ?p ?s1") auto
    then have "dispatch env ?p ?l viewType k cb ?s1 = (Inr (), s')"
      using False by (simp add: dispatch_def bnd_def ret_def)
    then show ?thesis
      using adds_only_flag[OF adds_only_loadSqliteDatabase, of env ?p ?s1] ld by simp
  qed
  then show "skipNextPrompt (snd (URIAtLine env uri lineno viewType k cb s)) = skipNextPrompt s"
    using t by (simp add: URIAtLine_flag)
next
  let ?s1 = "s\<lparr>trace := trace s @ [Enter_URIAtLine uri lineno viewType k cb]\<rparr>"
  let ?t = "URIAtLine_try env uri lineno viewType k cb ?s1"
  assume ch: "skipNextPrompt (snd (URIAtLine env uri lineno viewType k cb s)) \<noteq> skipNextPrompt s"
  then have "skipNextPrompt (snd ?t) \<noteq> skipNextPrompt ?s1"
    by (simp add: URIAtLine_flag)
  with try_shape[of env cb ?s1 uri lineno viewType k] obtain evs p l vt where
    tr: "trace (snd ?t) = trace ?s1 @ evs @ [open_request p l vt cb]"
    unfolding run_shape_def by auto
  obtain r s' where ts: "?t = (r, s')" by (cases ?t)
  have "trace (snd (URIAtLine env uri lineno viewType k cb s)) =
      trace (snd ?t) @ (case r of Inl e \<Rightarrow> [Log_exception e] | Inr x \<Rightarrow> [])"
    using ts by (simp add: URIAtLine_eq split: sum.splits)
  then show "list_ex is_open_request
          (drop (length (trace s)) (trace (snd (URIAtLine env uri lineno viewType k cb s))))"
    using tr by (simp add: kind_simps)
qed

text \<open>
  The theorem at work: a project file is opened while the flag is set, and it stays set;
  a colour scheme file is opened while the flag is set, the flag is reset, and the record
  of the call holds the request to the view manager.
\<close>

theorem skipNextPrompt_kept_outside_default_branch_witness:
  "pathToURI plain_env ''/p/site.komodoproject'' = Inr ''/p/site.komodoproject''
   \<and> ends_with_ci ''.komodoproject'' (fst (split_lineno ''/p/site.komodoproject'' None))
   \<and> skipNextPrompt (initial_ostate\<lparr>skipNextPrompt := True\<rparr>)
   \<and> skipNextPrompt (snd (URIAtLine plain_env ''/p/site.komodoproject'' None None False None
                            (initial_ostate\<lparr>skipNextPrompt := True\<rparr>)))
   \<and> \<not> skipNextPrompt (snd (URIAtLine plain_env ''/tmp/Dark.KSF'' None None False None
                              (initial_ostate\<lparr>skipNextPrompt := True\<rparr>)))
   \<and> list_ex is_open_request
       (drop (length (trace (initial_ostate\<lparr>skipNextPrompt := True\<rparr>)))
          (trace (snd (URIAtLine plain_env ''/tmp/Dark.KSF'' None None False None
                         (initial_ostate\<lparr>skipNextPrompt := True\<rparr>)))))"
proof -
  have h1: "pathToURI plain_env ''/p/site.komodoproject'' = Inr ''/p/site.komodoproject''"
    by (simp add: plain_env_def)
  have e: "ends_with_ci ''.komodoproject'' (fst (split_lineno ''/p/site.komodoproject'' None))"
    by code_simp
  have f: "skipNextPrompt (initial_ostate\<lparr>skipNextPrompt := True\<rparr>)" by simp
  have g: "\<not> skipNextPrompt (snd (URIAtLine plain_env ''/tmp/Dark.KSF'' None None False None
                              (initial_ostate\<lparr>skipNextPrompt := True\<rparr>)))"
    by code_simp
  show ?thesis
    using skipNextPrompt_kept_outside_default_branch
        [of plain_env "''/p/site.komodoproject''" "''/p/site.komodoproject''" None
           "initial_ostate\<lparr>skipNextPrompt := True\<rparr>" None False None]
      skipNextPrompt_kept_outside_default_branch
        [of plain_env "''/tmp/Dark.KSF''" "''/tmp/Dark.KSF''" None
           "initial_ostate\<lparr>skipNextPrompt := True\<rparr>" None False None]
      h1 e f g
    by blast
qed

section \<open>The claims about \<^verbatim>\<open>dynamic-button.js\<close>\<close>

subsection \<open>C1: \<^verbatim>\<open>unregister\<close>\<close>

text \<open>
  Claim C1 says that \<^verbatim>\<open>unregister(id)\<close> removes the entry of a registered id from the
  registry, so that the id can be registered again, and that it raises for an id that is
  not registered. \<^verbatim>\<open>unregister\<close> removes the button from the toolbar and never deletes
  \<^verbatim>\<open>buttons[id]\<close>: after \<^verbatim>\<open>Lint\<close> is registered and unregistered in the loaded module, both
  without error, the registry still has the key, and registering \<^verbatim>\<open>Lint\<close> again raises.
\<close>

theorem unregister_keeps_registry_entry:
  "error_of (register plain_benv (Label_opts ''Lint'' no_opts) loaded) = None
   \<and> error_of (unregister plain_benv ''Lint''
         (snd (register plain_benv (Label_opts ''Lint'' no_opts) loaded))) = None
   \<and> has_key plain_benv
        (buttons (snd (unregister plain_benv ''Lint''
           (snd (register plain_benv (Label_opts ''Lint'' no_opts) loaded))))) ''Lint''
   \<and> error_of (register plain_benv (Label_opts ''Lint'' no_opts)
         (snd (unregister plain_benv ''Lint''
            (snd (register plain_benv (Label_opts ''Lint'' no_opts) loaded)))))
       = Some (Error ''A dynamic button with id Lint already exists'')"
  by code_simp

subsection \<open>C4: \<^verbatim>\<open>register\<close>\<close>

text \<open>
  Claim C4, as amended: the key \<open>k\<close> of a registration is the explicit id when one is
  given and not empty, and else the label, with the characters that are not word
  characters removed in both cases (so an explicit id is the key itself only when it
  consists of word characters). When a widget is registered under \<open>k\<close>, \<^verbatim>\<open>register\<close> raises
  the error and changes nothing. When none is, \<open>k\<close> is not a name that every object
  inherits, the options carry no id or carry \<open>k\<close> itself, and looking for the group item
  does not raise, \<^verbatim>\<open>register\<close> returns the new widget, the registry gains exactly the entry
  of \<open>k\<close>, and the persisted state gains an empty entry for \<open>k\<close> unless it had one. Looking
  for the group item does not raise when the options name no group, or one of word
  characters and hyphens.
\<close>

theorem register_key_and_duplicates:
  assumes "button_id args = Some k"
  shows "(registered s k \<longrightarrow>
            register env args s =
              (Inl (Error (''A dynamic button with id '' @ k @ '' already exists'')), s))
       \<and> (\<not> has_key env (buttons s) k
            \<and> (o_id (reg_opts args) = None \<or> o_id (reg_opts args) = Some k)
            \<and> (\<forall>e. find_group env (case o_group (reg_opts args) of None \<Rightarrow> k | Some g \<Rightarrow> g)
                      (toolbar s) \<noteq> Inl e) \<longrightarrow>
            (\<exists>w. fst (register env args s) = Inr w
               \<and> buttons (snd (register env args s)) = (buttons s)(k \<mapsto> w)
               \<and> storage (snd (register env args s)) =
                   (case storage s k of None \<Rightarrow> (storage s)(k \<mapsto> None) | Some h \<Rightarrow> storage s)))
       \<and> ((case o_group (reg_opts args) of None \<Rightarrow> True | Some g \<Rightarrow> plain_name g) \<longrightarrow>
            (\<forall>e. find_group env (case o_group (reg_opts args) of None \<Rightarrow> k | Some g \<Rightarrow> g)
                      (toolbar s) \<noteq> Inl e))
       \<and> (\<forall>i. o_id (reg_opts args) = Some i \<and> i \<noteq> [] \<longrightarrow>
              k = strip_nonword i \<and> (list_all is_word_char i \<longrightarrow> k = i))
       \<and> (falsy (o_id (reg_opts args)) \<longrightarrow>
              (\<exists>l. reg_label args = Some l \<and> k = strip_nonword l))"
proof (intro conjI impI allI)
  assume "registered s k"
  then have "has_key env (buttons s) k"
    by (auto simp: registered_def has_key_def split: option.splits)
  then show "register env args s =
              (Inl (Error (''A dynamic button with id '' @ k @ '' already exists'')), s)"
    using assms by (simp add: register_def)
next
  assume a: "\<not> has_key env (buttons s) k
            \<and> (o_id (reg_opts args) = None \<or> o_id (reg_opts args) = Some k)
            \<and> (\<forall>e. find_group env (case o_group (reg_opts args) of None \<Rightarrow> k | Some g \<Rightarrow> g)
                      (toolbar s) \<noteq> Inl e)"
  let ?s1 = "s\<lparr>storage := (case storage s k of None \<Rightarrow> (storage s)(k \<mapsto> None)
                           | Some h \<Rightarrow> storage s)\<rparr>"
  let ?opts = "extend_defaults k (reg_label args) (reg_opts args)"
  have fid: "f_id ?opts = k" using a by (auto simp: extend_defaults_def)
  have fgr: "f_group ?opts = (case o_group (reg_opts args) of None \<Rightarrow> k | Some g \<Rightarrow> g)"
    by (simp add: extend_defaults_def)
  have "\<exists>h. storage ?s1 (f_id ?opts) = Some h"
    unfolding fid by (simp split: option.splits)
  then obtain h where h: "storage ?s1 (f_id ?opts) = Some h" by blast
  from a obtain found where "find_group env (f_group ?opts) (toolbar s) = Inr found"
    unfolding fgr by (cases "find_group env (case o_group (reg_opts args) of None \<Rightarrow> k
        | Some g \<Rightarrow> g) (toolbar s)") auto
  then have g: "find_group env (f_group ?opts) (toolbar ?s1) = Inr found" by simp
  from new_dynamicButton_ok[OF h g, of k] obtain w s' where
    n: "new_dynamicButton env k ?opts ?s1 = (Inr w, s')" "buttons s' = buttons ?s1"
      "storage s' = storage ?s1"
    by blast
  have "register env args s = (Inr w, s'\<lparr>buttons := (buttons s')(k \<mapsto> w)\<rparr>)"
    using assms a n(1) by (simp add: register_def)
  then show "\<exists>w. fst (register env args s) = Inr w
               \<and> buttons (snd (register env args s)) = (buttons s)(k \<mapsto> w)
               \<and> storage (snd (register env args s)) =
                   (case storage s k of None \<Rightarrow> (storage s)(k \<mapsto> None) | Some h \<Rightarrow> storage s)"
    using n(2,3) by (intro exI[of _ w]) simp
next
  fix e
  assume p: "case o_group (reg_opts args) of None \<Rightarrow> True | Some g \<Rightarrow> plain_name g"
  have "k = strip_nonword (the (js_or (o_id (reg_opts args)) (reg_label args)))"
    using assms by (auto simp: button_id_def)
  then have "plain_name k" using plain_name_strip_nonword by simp
  then have "plain_name (case o_group (reg_opts args) of None \<Rightarrow> k | Some g \<Rightarrow> g)"
    using p by (simp split: option.splits)
  then show "find_group env (case o_group (reg_opts args) of None \<Rightarrow> k | Some g \<Rightarrow> g)
                      (toolbar s) \<noteq> Inl e"
    by (simp add: find_group_plain_name)
next
  fix i assume i: "o_id (reg_opts args) = Some i \<and> i \<noteq> []"
  then show "k = strip_nonword i"
    using assms by (auto simp: button_id_def js_or_def falsy_def)
  then show "k = i" if "list_all is_word_char i"
    using that by (simp add: strip_nonword_def list_all_iff)
next
  assume "falsy (o_id (reg_opts args))"
  then show "\<exists>l. reg_label args = Some l \<and> k = strip_nonword l"
    using assms by (auto simp: button_id_def js_or_def)
qed

text \<open>
  The theorem at work in the loaded module: the label \<^verbatim>\<open>Run tests!\<close> is registered under
  \<^verbatim>\<open>Runtests\<close>, and the label \<^verbatim>\<open>Add ..\<close>, whose key the module registered itself, is refused
  with the state unchanged.
\<close>

theorem register_key_and_duplicates_witness:
  "button_id (Label_opts ''Run tests!'' no_opts) = Some ''Runtests''
   \<and> \<not> has_key plain_benv (buttons loaded) ''Runtests''
   \<and> o_id (reg_opts (Label_opts ''Run tests!'' no_opts)) = None
   \<and> o_group (reg_opts (Label_opts ''Run tests!'' no_opts)) = None
   \<and> (\<exists>w. fst (register plain_benv (Label_opts ''Run tests!'' no_opts) loaded) = Inr w
         \<and> buttons (snd (register plain_benv (Label_opts ''Run tests!'' no_opts) loaded)) =
             (buttons loaded)(''Runtests'' \<mapsto> w))
   \<and> button_id (Label_opts ''Add ..'' no_opts) = Some ''Add''
   \<and> registered loaded ''Add''
   \<and> register plain_benv (Label_opts ''Add ..'' no_opts) loaded =
       (Inl (Error (''A dynamic button with id '' @ ''Add'' @ '' already exists'')), loaded)"
proof -
  let ?a = "Label_opts ''Run tests!'' no_opts"
  have h1: "button_id ?a = Some ''Runtests''" by code_simp
  have h2: "\<not> has_key plain_benv (buttons loaded) ''Runtests''" by code_simp
  have h3: "o_id (reg_opts ?a) = None" by code_simp
  have h3g: "o_group (reg_opts ?a) = None" by code_simp
  have h4: "button_id (Label_opts ''Add ..'' no_opts) = Some ''Add''" by code_simp
  have h5: "registered loaded ''Add''" by code_simp
  note t = register_key_and_duplicates[OF h1, where env = plain_benv and s = loaded]
  have g: "\<forall>e. find_group plain_benv (case o_group (reg_opts ?a) of None \<Rightarrow> ''Runtests''
         | Some g \<Rightarrow> g) (toolbar loaded) \<noteq> Inl e"
    using t h3g by simp
  have r: "\<exists>w. fst (register plain_benv ?a loaded) = Inr w
         \<and> buttons (snd (register plain_benv ?a loaded)) = (buttons loaded)(''Runtests'' \<mapsto> w)"
    using t h2 h3 g by blast
  show ?thesis
    using r register_key_and_duplicates[OF h4, where env = plain_benv and s = loaded] h1 h2 h3 h3g h4 h5
    by blast
qed

text \<open>
  Claim C4 as it was stated fails: it has an explicit id be the key itself, and only an id
  that is in the registry be refused. In the loaded module, whose registry holds \<^verbatim>\<open>Add\<close>
  and nothing under \<^verbatim>\<open>Add!\<close>, a registration with the explicit id \<^verbatim>\<open>Add!\<close> has the key \<^verbatim>\<open>Add\<close>
  and is refused as a duplicate of it.
\<close>

theorem register_explicit_id_is_stripped:
  "button_id (Label_opts ''X'' (no_opts\<lparr>o_id := Some ''Add!''\<rparr>)) = Some ''Add''
   \<and> \<not> has_key plain_benv (buttons loaded) ''Add!''
   \<and> error_of (register plain_benv (Label_opts ''X'' (no_opts\<lparr>o_id := Some ''Add!''\<rparr>)) loaded)
       = Some (Error ''A dynamic button with id Add already exists'')"
  by code_simp

subsection \<open>C7: the debounced refresh\<close>

text \<open>
  Claim C7: take a widget registered under \<open>key\<close> whose pending timers, if any, are the
  one it holds. A refresh request now, followed by requests at the times \<open>ts\<close>, each
  less than 250 ms after the one before, recomputes nothing while they arrive: the
  recomputations recorded for the widget and its \<^verbatim>\<open>disabled\<close> attribute are as they were, and
  one timer is pending for it, due 250 ms after the last request. Once that time has
  passed, exactly one recomputation has taken place: the predicate of the widget was asked
  once, at the time the timer was due, the \<^verbatim>\<open>disabled\<close> attribute is \<^verbatim>\<open>false\<close> when it answered
  yes and \<^verbatim>\<open>true\<close> when it answered no, and no timer of the widget is pending. A request with
  the flag \<^verbatim>\<open>true\<close> asks the predicate at once, sets the attribute by its answer, leaves the
  timers as they are, and sets the \<^verbatim>\<open>collapsed\<close> attribute of the group item the button sits
  in: for an only child to the opposite of the answer, and else to \<^verbatim>\<open>true\<close> when no child of
  the group is left visible and to \<^verbatim>\<open>false\<close> when one is. (This is what the timer does when
  it is due.)
\<close>

theorem update_debounced_once:
  assumes "registered s key"
    and "list_all (\<lambda>tm. held_timer s key = Some (fst tm)) (pending key s)"
    and "within_window (clock s) ts"
    and "last (clock s # ts) + 250 \<le> T"
  shows "recomputed_for key (requests env key ts (snd (update env key False s))) =
           recomputed_for key s
       \<and> disabled_attr (requests env key ts (snd (update env key False s))) key =
           disabled_attr s key
       \<and> pending key (requests env key ts (snd (update env key False s))) =
           [(the (held_timer (requests env key ts (snd (update env key False s))) key),
             last (clock s # ts) + 250, key)]
       \<and> recomputed_for key
           (advance env T (requests env key ts (snd (update env key False s)))) =
           recomputed_for key s @ [(key, answer_at env s key (last (clock s # ts) + 250))]
       \<and> disabled_attr
           (advance env T (requests env key ts (snd (update env key False s)))) key =
           Some (AStr (if answer_at env s key (last (clock s # ts) + 250)
                       then ''false'' else ''true''))
       \<and> pending key (advance env T (requests env key ts (snd (update env key False s)))) = []
       \<and> recomputed (snd (update env key True s)) =
           recomputed s @ [(key, answer_at env s key (clock s))]
       \<and> disabled_attr (snd (update env key True s)) key =
           Some (AStr (if answer_at env s key (clock s) then ''false'' else ''true''))
       \<and> timers (snd (update env key True s)) = timers s
       \<and> (only_child s key \<longrightarrow>
            collapsed_attr (snd (update env key True s)) key =
              Some (if answer_at env s key (clock s) then ''false'' else ''true''))
       \<and> (\<forall>cs. group_children s key = Some cs \<and> length cs \<noteq> 1 \<longrightarrow>
            collapsed_attr (snd (update env key True s)) key =
              Some (if visible_children (buttons (snd (update env key True s))) cs = []
                    then ''true'' else ''false''))"
proof -
  from assms(1) obtain w where w: "buttons s key = Some w"
    by (auto simp: registered_def split: option.splits)
  then have held: "list_all (\<lambda>tm. w_timer w = Some (fst tm)) (pending key s)"
    using assms(2) by (simp add: held_timer_def)
  have a: "answer_at env s key t = enabled_at env (w_isEnabled w) t" for t
    by (rule answer_at_eq[OF w])
  let ?s1 = "snd (update env key False s)"
  let ?b = "requests env key ts ?s1"
  let ?d = "last (clock s # ts) + 250"
  have o: "one_pending key w ?s1 (clock s)"
    by (rule first_request[OF w held])
  have r1: "recomputed_for key ?s1 = recomputed_for key s"
    by (simp add: update_later[OF w] recomputed_for_def)
  from requests_window[OF o assms(3), of env]
  have o2: "one_pending key w ?b (last (clock s # ts))"
    and c1: "recomputed_for key ?b = recomputed_for key s"
    using r1 by simp_all
  from o2 obtain n where b: "buttons ?b key = Some (w\<lparr>w_timer := Some n\<rparr>)"
    "pending key ?b = [(n, ?d, key)]" "clock ?b = last (clock s # ts)"
    unfolding one_pending_def by blast
  have c2: "disabled_attr ?b key = disabled_attr s key"
    using b(1) w by (simp add: disabled_attr_def)
  have c3: "pending key ?b = [(the (held_timer ?b key), ?d, key)]"
    using b(1,2) by (simp add: held_timer_def)
  have le: "clock ?b \<le> ?d" using b(3) by simp
  from advance_one[OF b(2) assms(4) le b(1), of env]
  have c4: "recomputed_for key (advance env T ?b) =
      recomputed_for key s @ [(key, answer_at env s key ?d)]"
    and c5: "disabled_attr (advance env T ?b) key =
      Some (AStr (if answer_at env s key ?d then ''false'' else ''true''))"
    unfolding a c1[symmetric] by (simp_all add: disabled_attr_def)
  have c6: "pending key (advance env T ?b) = []"
    using b(2) assms(4) by (simp add: pending_advance)
  have c7: "recomputed (snd (update env key True s)) =
      recomputed s @ [(key, answer_at env s key (clock s))]"
    and c8: "disabled_attr (snd (update env key True s)) key =
      Some (AStr (if answer_at env s key (clock s) then ''false'' else ''true''))"
    unfolding a using update_now_self[OF w, of env] by (simp_all add: disabled_attr_def)
  have c9: "timers (snd (update env key True s)) = timers s"
    by (rule update_now_frame)
  have c10: "only_child s key \<longrightarrow>
            collapsed_attr (snd (update env key True s)) key =
              Some (if answer_at env s key (clock s) then ''false'' else ''true'')"
    using update_now_collapsed by blast
  have c11: "\<forall>cs. group_children s key = Some cs \<and> length cs \<noteq> 1 \<longrightarrow>
            collapsed_attr (snd (update env key True s)) key =
              Some (if visible_children (buttons (snd (update env key True s))) cs = []
                    then ''true'' else ''false'')"
    using update_now_group by blast
  show ?thesis
    by (intro conjI c1 c2 c3 c4 c5 c6 c7 c8 c9 c10 c11)
qed

text \<open>
  The theorem at work on the button \<^verbatim>\<open>Add ..\<close> of the loaded module, whose construction
  left a timer pending and which is disabled at first: requests at 0, 100, 200 and 300 ms
  leave it disabled, and by the time 1000 ms its predicate has been asked once and it is
  enabled. And at work on a second button, \<^verbatim>\<open>Lint\<close>, registered in the same group and never
  enabled: once \<^verbatim>\<open>Add ..\<close> is enabled, a forced refresh of \<^verbatim>\<open>Lint\<close> disables \<^verbatim>\<open>Lint\<close> and leaves
  the group showing.
\<close>

theorem update_debounced_once_witness:
  "registered loaded ''Add''
   \<and> list_all (\<lambda>tm. held_timer loaded ''Add'' = Some (fst tm)) (pending ''Add'' loaded)
   \<and> within_window (clock loaded) [100, 200, 300]
   \<and> last (clock loaded # [100, 200, 300]) + 250 \<le> 1000
   \<and> only_child loaded ''Add''
   \<and> disabled_attr loaded ''Add'' = Some (AStr ''true'')
   \<and> disabled_attr (requests plain_benv ''Add'' [100, 200, 300]
         (snd (update plain_benv ''Add'' False loaded))) ''Add'' = Some (AStr ''true'')
   \<and> recomputed_for ''Add''
       (advance plain_benv 1000
          (requests plain_benv ''Add'' [100, 200, 300]
             (snd (update plain_benv ''Add'' False loaded)))) = [(''Add'', True)]
   \<and> disabled_attr
       (advance plain_benv 1000
          (requests plain_benv ''Add'' [100, 200, 300]
             (snd (update plain_benv ''Add'' False loaded)))) ''Add'' = Some (AStr ''false'')
   \<and> recomputed (snd (update plain_benv ''Add'' True loaded)) = [(''Add'', True)]
   \<and> collapsed_attr (snd (update plain_benv ''Add'' True loaded)) ''Add'' = Some ''false''
   \<and> group_children
         (snd (update plain_benv ''Add'' True
            (snd (register plain_benv (Label_opts ''Lint'' (no_opts\<lparr>o_group := Some ''add''\<rparr>))
                    loaded)))) ''Lint'' = Some [''Add'', ''Lint'']
   \<and> disabled_attr
         (snd (update plain_benv ''Lint'' True
            (snd (update plain_benv ''Add'' True
               (snd (register plain_benv (Label_opts ''Lint'' (no_opts\<lparr>o_group := Some ''add''\<rparr>))
                       loaded)))))) ''Lint'' = Some (AStr ''true'')
   \<and> collapsed_attr
         (snd (update plain_benv ''Lint'' True
            (snd (update plain_benv ''Add'' True
               (snd (register plain_benv (Label_opts ''Lint'' (no_opts\<lparr>o_group := Some ''add''\<rparr>))
                       loaded)))))) ''Lint'' = Some ''false''"
proof -
  have h1: "registered loaded ''Add''" by code_simp
  have h2: "list_all (\<lambda>tm. held_timer loaded ''Add'' = Some (fst tm)) (pending ''Add'' loaded)"
    by code_simp
  have h3: "within_window (clock loaded) [100, 200, 300]" by code_simp
  have h4: "last (clock loaded # [100, 200, 300]) + 250 \<le> 1000" by code_simp
  have h5: "only_child loaded ''Add''" by code_simp
  have z: "recomputed_for ''Add'' loaded = []" "recomputed loaded = []"
    "disabled_attr loaded ''Add'' = Some (AStr ''true'')" by code_simp+
  have y: "answer_at plain_benv loaded ''Add'' (last (clock loaded # [100, 200, 300]) + 250)"
    "answer_at plain_benv loaded ''Add'' (clock loaded)" by code_simp+
  have first: "disabled_attr (requests plain_benv ''Add'' [100, 200, 300]
         (snd (update plain_benv ''Add'' False loaded))) ''Add'' = Some (AStr ''true'')
   \<and> recomputed_for ''Add''
       (advance plain_benv 1000
          (requests plain_benv ''Add'' [100, 200, 300]
             (snd (update plain_benv ''Add'' False loaded)))) = [(''Add'', True)]
   \<and> disabled_attr
       (advance plain_benv 1000
          (requests plain_benv ''Add'' [100, 200, 300]
             (snd (update plain_benv ''Add'' False loaded)))) ''Add'' = Some (AStr ''false'')
   \<and> recomputed (snd (update plain_benv ''Add'' True loaded)) = [(''Add'', True)]
   \<and> collapsed_attr (snd (update plain_benv ''Add'' True loaded)) ''Add'' = Some ''false''"
    using update_debounced_once[OF h1 h2 h3 h4, of plain_benv] h5 z y
    by simp
  let ?s = "snd (update plain_benv ''Add'' True
              (snd (register plain_benv (Label_opts ''Lint'' (no_opts\<lparr>o_group := Some ''add''\<rparr>))
                      loaded)))"
  have g1: "registered ?s ''Lint''" by code_simp
  have g2: "list_all (\<lambda>tm. held_timer ?s ''Lint'' = Some (fst tm)) (pending ''Lint'' ?s)"
    by code_simp
  have g3: "within_window (clock ?s) []" by simp
  have g4: "last (clock ?s # []) + 250 \<le> 250" by code_simp
  have g5: "group_children ?s ''Lint'' = Some [''Add'', ''Lint'']" by code_simp
  have g6: "\<not> answer_at plain_benv ?s ''Lint'' (clock ?s)" by code_simp
  have g7: "visible_children (buttons (snd (update plain_benv ''Lint'' True ?s)))
              [''Add'', ''Lint''] = [''Add'']" by code_simp
  have second: "disabled_attr (snd (update plain_benv ''Lint'' True ?s)) ''Lint'' =
       Some (AStr ''true'')
     \<and> collapsed_attr (snd (update plain_benv ''Lint'' True ?s)) ''Lint'' = Some ''false''"
    using update_debounced_once[OF g1 g2 g3 g4, of plain_benv] g5 g6 g7
    by simp
  show ?thesis
    using first second h1 h2 h3 h4 h5 z(3) g5 by blast
qed

end
